theory Spec2Isabelle
  imports Main "HOL-Library.Sublist" "HOL-Library.Char_ord" "HOL-Library.List_Lexorder"
    "HOL-Library.Multiset"
begin

section \<open>Data model (src/types.ts)\<close>

text \<open>
  Strings are lists of code units below 256. A timestamp is the millisecond count that
  \<^verbatim>\<open>Date.getTime()\<close> returns; an absent or null \<^verbatim>\<open>appliedAt\<close> is \<open>None\<close>.
  The field names of \<^verbatim>\<open>Migration\<close> carry the prefix \<open>m_\<close> because \<open>id\<close> is a
  constant of HOL and \<open>up\<close>, \<open>down\<close> name the operations of the Migrator below.
\<close>

record migration =
  m_id :: string
  m_filename :: string
  m_up :: string
  m_down :: string
  m_appliedAt :: "int option"

datatype status_kind = Applied | Pending

record migration_status =
  s_id :: string
  s_filename :: string
  s_status :: status_kind
  s_appliedAt :: "int option"

text \<open>One row of the tracking table: \<^verbatim>\<open>id text PRIMARY KEY, filename text, applied_at timestamp, checksum text\<close>.\<close>

record row =
  r_id :: string
  r_filename :: string
  r_applied_at :: "int option"
  r_checksum :: string

section \<open>The database client and the logger\<close>

text \<open>
  Every call of \<^verbatim>\<open>client.execute\<close> that the Migrator makes is one of five queries: the
  four fixed queries on the tracking table and a statement of a migration script.
\<close>

datatype query =
    CreateTable
  | SelectApplied
  | InsertRow row
  | DeleteRow string
  | Statement string

datatype level = Info | Success | Warn | Error | Debug

text \<open>
  The world the Migrator acts on: the rows of the tracking table, whether the table has
  been created, every call made on the client in order (rejected calls included), every
  call made on the logger in order, and the number of times the wall clock was read.
  A statement of a migration script is recorded in \<open>calls\<close>; it is taken not to touch
  the tracking table, which only the Migrator writes.
\<close>

record world =
  rows :: "row list"
  table_exists :: bool
  calls :: "query list"
  log :: "(level \<times> string) list"
  ticks :: nat

text \<open>
  What the Migrator is configured with and cannot decide: which client calls the
  database rejects (as a function of the calls made so far and the query, giving the
  text that \<^verbatim>\<open>${error}\<close> renders), the reading of the wall clock at each
  \<^verbatim>\<open>new Date()\<close>, the MD5 digest, and the names of keyspace and table.
\<close>

record env =
  reject :: "query list \<Rightarrow> query \<Rightarrow> string option"
  clock :: "nat \<Rightarrow> int"
  md5 :: "string \<Rightarrow> string"
  keyspace :: string
  migrationsTable :: string

text \<open>A function returning nothing either returns or throws \<^verbatim>\<open>new Error(message)\<close>.\<close>

datatype outcome = Returned | Raised string

text \<open>\<^verbatim>\<open>`${error}`\<close> for an \<^verbatim>\<open>Error\<close> object with the given message.\<close>

definition render :: "string \<Rightarrow> string" where
  "render msg = ''Error: '' @ msg"

definition logger :: "level \<Rightarrow> string \<Rightarrow> world \<Rightarrow> world" where
  "logger lvl msg w = w\<lparr>log := log w @ [(lvl, msg)]\<rparr>"

text \<open>\<^verbatim>\<open>INSERT\<close> on a primary key that exists overwrites the row (an upsert).\<close>

fun upsert :: "row \<Rightarrow> row list \<Rightarrow> row list" where
  "upsert r [] = [r]"
| "upsert r (x # xs) = (if r_id x = r_id r then r # xs else x # upsert r xs)"

definition client_execute :: "env \<Rightarrow> query \<Rightarrow> world \<Rightarrow> (string + row list) \<times> world" where
  "client_execute e q w =
     (let w' = w\<lparr>calls := calls w @ [q]\<rparr> in
      case reject e (calls w) q of
        Some err \<Rightarrow> (Inl err, w')
      | None \<Rightarrow>
          (case q of
             CreateTable \<Rightarrow> (Inr [], w'\<lparr>table_exists := True\<rparr>)
           | SelectApplied \<Rightarrow> (Inr (rows w), w')
           | InsertRow r \<Rightarrow> (Inr [], w'\<lparr>rows := upsert r (rows w)\<rparr>)
           | DeleteRow i \<Rightarrow> (Inr [], w'\<lparr>rows := filter (\<lambda>r. r_id r \<noteq> i) (rows w)\<rparr>)
           | Statement s \<Rightarrow> (Inr [], w')))"

section \<open>String operations of JavaScript\<close>

text \<open>The white space that \<^verbatim>\<open>String.prototype.trim\<close> removes, among code units below 256.\<close>

definition is_space :: "char \<Rightarrow> bool" where
  "is_space c = (c \<in> set [CHR 0x09, CHR 0x0A, CHR 0x0B, CHR 0x0C, CHR 0x0D, CHR 0x20, CHR 0xA0])"

definition trim :: "string \<Rightarrow> string" where
  "trim s = rev (dropWhile is_space (rev (dropWhile is_space s)))"

definition startsWith :: "string \<Rightarrow> string \<Rightarrow> bool" where
  "startsWith s p = (take (length p) s = p)"

definition endsWith :: "string \<Rightarrow> string \<Rightarrow> bool" where
  "endsWith s p = (length p \<le> length s \<and> drop (length s - length p) s = p)"

text \<open>\<^verbatim>\<open>s.split(c)\<close> for a one-character separator: the empty string gives one empty piece.\<close>

fun split :: "char \<Rightarrow> string \<Rightarrow> string list" where
  "split c [] = [[]]"
| "split c (x # xs) =
     (if x = c then [] # split c xs
      else (case split c xs of y # ys \<Rightarrow> (x # y) # ys | [] \<Rightarrow> [[x]]))"

text \<open>The decimal digits that a template literal prints for a length.\<close>

definition digit :: "nat \<Rightarrow> char" where
  "digit d = ''0123456789'' ! d"

fun show_nat :: "nat \<Rightarrow> string" where
  "show_nat n = (if n < 10 then [digit n] else show_nat (n div 10) @ [digit (n mod 10)])"

declare show_nat.simps [simp del]

section \<open>The Migrator (src/migrator.ts)\<close>

subsection \<open>The tracking table\<close>

definition initializeMigrationsTable :: "env \<Rightarrow> world \<Rightarrow> outcome \<times> world" where
  "initializeMigrationsTable e w =
     (case client_execute e CreateTable w of
        (Inl err, w') \<Rightarrow> (Raised (''Failed to initialize migrations table: '' @ err), w')
      | (Inr _, w') \<Rightarrow>
          (Returned, logger Debug (''Migrations table '' @ migrationsTable e @ '' initialized'') w'))"

definition row_to_migration :: "row \<Rightarrow> migration" where
  "row_to_migration r =
     \<lparr>m_id = r_id r, m_filename = r_filename r, m_up = [], m_down = [],
      m_appliedAt = r_applied_at r\<rparr>"

definition getAppliedMigrations :: "env \<Rightarrow> world \<Rightarrow> (string + migration list) \<times> world" where
  "getAppliedMigrations e w =
     (case initializeMigrationsTable e w of
        (Raised err, w1) \<Rightarrow> (Inl err, w1)
      | (Returned, w1) \<Rightarrow>
          (case client_execute e SelectApplied w1 of
             (Inl err, w2) \<Rightarrow> (Inl (''Failed to get applied migrations: '' @ err), w2)
           | (Inr rs, w2) \<Rightarrow> (Inr (map row_to_migration rs), w2)))"

definition calculateChecksum :: "env \<Rightarrow> string \<Rightarrow> string" where
  "calculateChecksum e content = md5 e content"

definition recordMigration :: "env \<Rightarrow> migration \<Rightarrow> world \<Rightarrow> outcome \<times> world" where
  "recordMigration e migration w =
     (let checksum = calculateChecksum e (m_up migration);
          now = clock e (ticks w);
          w0 = w\<lparr>ticks := Suc (ticks w)\<rparr>;
          params = \<lparr>r_id = m_id migration, r_filename = m_filename migration,
                    r_applied_at = Some now, r_checksum = checksum\<rparr>
      in case client_execute e (InsertRow params) w0 of
           (Inl err, w1) \<Rightarrow>
             (Raised (''Failed to record migration '' @ m_filename migration @ '': '' @ err), w1)
         | (Inr _, w1) \<Rightarrow>
             (Returned, logger Debug (''Recorded migration: '' @ m_filename migration) w1))"

definition removeMigrationRecord :: "env \<Rightarrow> string \<Rightarrow> world \<Rightarrow> outcome \<times> world" where
  "removeMigrationRecord e migrationId w =
     (case client_execute e (DeleteRow migrationId) w of
        (Inl err, w1) \<Rightarrow>
          (Raised (''Failed to remove migration record '' @ migrationId @ '': '' @ err), w1)
      | (Inr _, w1) \<Rightarrow>
          (Returned, logger Debug (''Removed migration record: '' @ migrationId) w1))"

subsection \<open>executeCQL\<close>

text \<open>The fragments that \<^verbatim>\<open>executeCQL\<close> keeps: split on \<open>;\<close>, trimmed, filtered.\<close>

definition statements :: "string \<Rightarrow> string list" where
  "statements cql =
     filter (\<lambda>stmt. length stmt > 0 \<and> \<not> startsWith stmt ''--'')
       (map trim (split (CHR '';'') cql))"

text \<open>The \<^verbatim>\<open>for (const statement of statements)\<close> loop.\<close>

fun run_statements :: "env \<Rightarrow> bool \<Rightarrow> string list \<Rightarrow> world \<Rightarrow> outcome \<times> world" where
  "run_statements e dryRun [] w = (Returned, w)"
| "run_statements e dryRun (statement # rest) w =
     (if dryRun then
        run_statements e dryRun rest (logger Info (''[DRY RUN] Would execute: '' @ statement) w)
      else
        (case client_execute e (Statement statement) w of
           (Inl err, w1) \<Rightarrow>
             (Raised (''Failed to execute CQL: '' @ statement @ [CHR 0x0A] @ ''Error: '' @ err), w1)
         | (Inr _, w1) \<Rightarrow>
             run_statements e dryRun rest
               (logger Debug (''Executed: '' @ take 50 statement @ ''...'') w1)))"

definition executeCQL :: "env \<Rightarrow> string \<Rightarrow> bool \<Rightarrow> world \<Rightarrow> outcome \<times> world" where
  "executeCQL e cql dryRun w = run_statements e dryRun (statements cql) w"

subsection \<open>up\<close>

text \<open>The body of the loop of \<^verbatim>\<open>up\<close>: the \<^verbatim>\<open>try\<close> block and its \<^verbatim>\<open>catch\<close>.\<close>

definition apply_migration :: "env \<Rightarrow> bool \<Rightarrow> migration \<Rightarrow> world \<Rightarrow> outcome \<times> world" where
  "apply_migration e dryRun migration w =
     (let failed = (\<lambda>err. logger Error
            (''Failed to apply migration '' @ m_filename migration @ '': '' @ render err)) in
      case executeCQL e (m_up migration) dryRun
             (logger Info (''Applying migration: '' @ m_filename migration) w) of
        (Raised err, w1) \<Rightarrow> (Raised err, failed err w1)
      | (Returned, w1) \<Rightarrow>
          (case (if \<not> dryRun then recordMigration e migration w1 else (Returned, w1)) of
             (Raised err, w2) \<Rightarrow> (Raised err, failed err w2)
           | (Returned, w2) \<Rightarrow>
               (Returned, logger Success (''Applied migration: '' @ m_filename migration) w2)))"

fun up_loop :: "env \<Rightarrow> bool \<Rightarrow> migration list \<Rightarrow> world \<Rightarrow> outcome \<times> world" where
  "up_loop e dryRun [] w = (Returned, w)"
| "up_loop e dryRun (migration # rest) w =
     (case apply_migration e dryRun migration w of
        (Raised err, w1) \<Rightarrow> (Raised err, w1)
      | (Returned, w1) \<Rightarrow> up_loop e dryRun rest w1)"

definition pendingMigrations :: "migration list \<Rightarrow> migration list \<Rightarrow> migration list" where
  "pendingMigrations fileMigrations appliedMigrations =
     filter (\<lambda>m. m_id m \<notin> set (map m_id appliedMigrations)) fileMigrations"

text \<open>
  The operations take the settled result of \<^verbatim>\<open>FileSystemManager.loadMigrations\<close>
  as \<open>loaded\<close> (\<open>Inl\<close> its error). \<^verbatim>\<open>Promise.all\<close> starts both reads; the directory is
  read with synchronous file operations and settles first, so its rejection is the one
  raised, while the two calls of \<^verbatim>\<open>getAppliedMigrations\<close> are made in either case.
\<close>

definition up :: "env \<Rightarrow> bool \<Rightarrow> string + migration list \<Rightarrow> world \<Rightarrow> outcome \<times> world" where
  "up e dryRun loaded w =
     (case getAppliedMigrations e (logger Info ''Starting migration up...'' w) of
        (res, w1) \<Rightarrow>
     (case loaded of Inl err \<Rightarrow> (Raised err, w1) | Inr fileMigrations \<Rightarrow>
     (case res of Inl err \<Rightarrow> (Raised err, w1) | Inr appliedMigrations \<Rightarrow>
        (let pending = pendingMigrations fileMigrations appliedMigrations in
         if length pending = 0 then
           (Returned, logger Success ''No pending migrations found'' w1)
         else
           (case up_loop e dryRun pending
                   (logger Info (''Found '' @ show_nat (length pending) @ '' pending migration(s)'') w1) of
              (Raised err, w2) \<Rightarrow> (Raised err, w2)
            | (Returned, w2) \<Rightarrow>
                (Returned, logger Success
                   (''Successfully applied '' @ show_nat (length pending) @ '' migration(s)'') w2))))))"

subsection \<open>down and reset\<close>

text \<open>\<^verbatim>\<open>appliedAt?.getTime() || 0\<close>\<close>

definition appliedTime :: "migration \<Rightarrow> int" where
  "appliedTime m = (case m_appliedAt m of None \<Rightarrow> 0 | Some t \<Rightarrow> t)"

text \<open>
  \<^verbatim>\<open>appliedMigrations.sort((a, b) => time(b) - time(a))\<close>: descending by time;
  \<^verbatim>\<open>Array.prototype.sort\<close> is stable, and so is \<open>sort_key\<close>.
\<close>

definition sortApplied :: "migration list \<Rightarrow> migration list" where
  "sortApplied ms = sort_key (\<lambda>m. - appliedTime m) ms"

text \<open>The \<^verbatim>\<open>try\<close> block and \<^verbatim>\<open>catch\<close> that \<^verbatim>\<open>down\<close> and \<^verbatim>\<open>reset\<close> both contain.\<close>

definition rollback_migration :: "env \<Rightarrow> bool \<Rightarrow> migration \<Rightarrow> world \<Rightarrow> outcome \<times> world" where
  "rollback_migration e dryRun migrationToRollback w =
     (let failed = (\<lambda>err. logger Error
            (''Failed to rollback migration '' @ m_filename migrationToRollback @ '': '' @ render err)) in
      case executeCQL e (m_down migrationToRollback) dryRun
             (logger Info (''Rolling back migration: '' @ m_filename migrationToRollback) w) of
        (Raised err, w1) \<Rightarrow> (Raised err, failed err w1)
      | (Returned, w1) \<Rightarrow>
          (case (if \<not> dryRun then removeMigrationRecord e (m_id migrationToRollback) w1
                 else (Returned, w1)) of
             (Raised err, w2) \<Rightarrow> (Raised err, failed err w2)
           | (Returned, w2) \<Rightarrow>
               (Returned, logger Success
                  (''Rolled back migration: '' @ m_filename migrationToRollback) w2)))"

definition down :: "env \<Rightarrow> bool \<Rightarrow> string + migration list \<Rightarrow> world \<Rightarrow> outcome \<times> world" where
  "down e dryRun loaded w =
     (case getAppliedMigrations e (logger Info ''Starting migration down...'' w) of
        (res, w1) \<Rightarrow>
     (case loaded of Inl err \<Rightarrow> (Raised err, w1) | Inr fileMigrations \<Rightarrow>
     (case res of Inl err \<Rightarrow> (Raised err, w1) | Inr appliedMigrations \<Rightarrow>
        if length appliedMigrations = 0 then
          (Returned, logger Warn ''No applied migrations found'' w1)
        else
          (case sortApplied appliedMigrations of
             [] \<Rightarrow> (Raised ''Cannot read properties of undefined (reading 'id')'', w1)
           | lastApplied # _ \<Rightarrow>
               (case find (\<lambda>m. m_id m = m_id lastApplied) fileMigrations of
                  None \<Rightarrow>
                    (Raised (''Migration file not found for applied migration: ''
                             @ m_filename lastApplied), w1)
                | Some migrationToRollback \<Rightarrow>
                    rollback_migration e dryRun migrationToRollback w1)))))"

fun reset_loop ::
  "env \<Rightarrow> bool \<Rightarrow> migration list \<Rightarrow> migration list \<Rightarrow> world \<Rightarrow> outcome \<times> world" where
  "reset_loop e dryRun fileMigrations [] w = (Returned, w)"
| "reset_loop e dryRun fileMigrations (appliedMigration # rest) w =
     (case find (\<lambda>m. m_id m = m_id appliedMigration) fileMigrations of
        None \<Rightarrow>
          reset_loop e dryRun fileMigrations rest
            (logger Warn (''Migration file not found for applied migration: ''
                          @ m_filename appliedMigration) w)
      | Some migrationToRollback \<Rightarrow>
          (case rollback_migration e dryRun migrationToRollback w of
             (Raised err, w1) \<Rightarrow> (Raised err, w1)
           | (Returned, w1) \<Rightarrow> reset_loop e dryRun fileMigrations rest w1))"

definition reset :: "env \<Rightarrow> bool \<Rightarrow> string + migration list \<Rightarrow> world \<Rightarrow> outcome \<times> world" where
  "reset e dryRun loaded w =
     (case getAppliedMigrations e (logger Info ''Starting migration reset...'' w) of
        (res, w1) \<Rightarrow>
     (case loaded of Inl err \<Rightarrow> (Raised err, w1) | Inr fileMigrations \<Rightarrow>
     (case res of Inl err \<Rightarrow> (Raised err, w1) | Inr appliedMigrations \<Rightarrow>
        if length appliedMigrations = 0 then
          (Returned, logger Warn ''No applied migrations found'' w1)
        else
          (let sortedApplied = sortApplied appliedMigrations in
           case reset_loop e dryRun fileMigrations sortedApplied
                  (logger Info (''Found '' @ show_nat (length sortedApplied)
                                @ '' applied migration(s) to rollback'') w1) of
             (Raised err, w2) \<Rightarrow> (Raised err, w2)
           | (Returned, w2) \<Rightarrow>
               (Returned, logger Success
                  (''Successfully rolled back '' @ show_nat (length sortedApplied)
                   @ '' migration(s)'') w2)))))"

subsection \<open>status\<close>

text \<open>\<^verbatim>\<open>new Map(appliedMigrations.map(m => [m.id, m]))\<close>: a later entry replaces an earlier one.\<close>

definition appliedMap :: "migration list \<Rightarrow> string \<Rightarrow> migration option" where
  "appliedMap appliedMigrations = map_of (rev (map (\<lambda>m. (m_id m, m)) appliedMigrations))"

definition status_entry :: "(string \<Rightarrow> migration option) \<Rightarrow> migration \<Rightarrow> migration_status" where
  "status_entry amap migration =
     \<lparr>s_id = m_id migration, s_filename = m_filename migration,
      s_status = (if amap (m_id migration) \<noteq> None then Applied else Pending),
      s_appliedAt = (case amap (m_id migration) of None \<Rightarrow> None | Some a \<Rightarrow> m_appliedAt a)\<rparr>"

definition status ::
  "env \<Rightarrow> string + migration list \<Rightarrow> world \<Rightarrow> (string + migration_status list) \<times> world" where
  "status e loaded w =
     (case getAppliedMigrations e w of (res, w1) \<Rightarrow>
     (case loaded of Inl err \<Rightarrow> (Inl err, w1) | Inr fileMigrations \<Rightarrow>
     (case res of Inl err \<Rightarrow> (Inl err, w1) | Inr appliedMigrations \<Rightarrow>
        (Inr (map (status_entry (appliedMap appliedMigrations)) fileMigrations), w1))))"

section \<open>The FileSystemManager (src/fs.ts)\<close>

text \<open>
  What the loader reads from: the listing of the migrations directory (\<open>None\<close> when
  \<^verbatim>\<open>existsSync\<close> is false), the module that importing a file yields and the text
  that reading a file yields (\<open>Inl\<close> the rendering of what the call throws). Files are
  addressed by their name within the directory.
\<close>

record ts_module =
  export_up :: "string option"
  export_down :: "string option"

record fs_env =
  readdir :: "string list option"
  import_module :: "string \<Rightarrow> string + ts_module"
  readFile :: "string \<Rightarrow> string + string"

text \<open>What the loader leaves behind: its logger calls and the files it opened, in order.\<close>

record fs_state =
  fs_log :: "(level \<times> string) list"
  opened :: "string list"

definition is_digit :: "char \<Rightarrow> bool" where
  "is_digit c = (c \<in> set ''0123456789'')"

text \<open>\<^verbatim>\<open>filename.match(/^(\d+)/)\<close>\<close>

definition extractMigrationId :: "string \<Rightarrow> string + string" where
  "extractMigrationId filename =
     (let match = takeWhile is_digit filename in
      if match = [] then
        Inl (''Invalid migration filename format: '' @ filename
             @ ''. Expected format: 001_migration_name.ts'')
      else Inr match)"

text \<open>
  \<^verbatim>\<open>path.extname\<close> on a file name without directory part: from the last dot on, and
  empty when there is no dot or the only dot comes first.
\<close>

definition extname :: "string \<Rightarrow> string" where
  "extname name =
     (let tail = rev (takeWhile (\<lambda>c. c \<noteq> CHR ''.'') (rev name)) in
      if CHR ''.'' \<notin> set name \<or> length tail + 1 = length name then []
      else CHR ''.'' # tail)"

text \<open>A value is falsy when it is absent or the empty string.\<close>

definition truthy :: "string option \<Rightarrow> bool" where
  "truthy v = (case v of None \<Rightarrow> False | Some s \<Rightarrow> s \<noteq> [])"

definition loadTypeScriptMigration ::
  "fs_env \<Rightarrow> string \<Rightarrow> string \<Rightarrow> fs_state \<Rightarrow> (string + migration) \<times> fs_state" where
  "loadTypeScriptMigration fe ident filename st =
     (let st1 = st\<lparr>opened := opened st @ [filename]\<rparr>;
          wrap = (\<lambda>err. ''Failed to load TypeScript migration '' @ filename @ '': '' @ err) in
      case import_module fe filename of
        Inl err \<Rightarrow> (Inl (wrap err), st1)
      | Inr migrationModule \<Rightarrow>
          if \<not> truthy (export_up migrationModule) \<or> \<not> truthy (export_down migrationModule) then
            (Inl (wrap (render (''Migration '' @ filename
                                @ '' must export 'up' and 'down' functions''))), st1)
          else
            (Inr \<lparr>m_id = ident, m_filename = filename,
                  m_up = the (export_up migrationModule),
                  m_down = the (export_down migrationModule),
                  m_appliedAt = None\<rparr>, st1))"

text \<open>
  The loop of \<^verbatim>\<open>parseCQLFile\<close> over the lines: the state is the current section
  (\<open>None\<close>, or \<open>Some True\<close> for up and \<open>Some False\<close> for down) and the two texts.
\<close>

fun parse_lines :: "string list \<Rightarrow> bool option \<Rightarrow> string \<times> string \<Rightarrow> string \<times> string" where
  "parse_lines [] currentSection sections = sections"
| "parse_lines (line # rest) currentSection sections =
     (let trimmed = trim line in
      if startsWith trimmed ''-- +migrate Up'' then parse_lines rest (Some True) sections
      else if startsWith trimmed ''-- +migrate Down'' then parse_lines rest (Some False) sections
      else if currentSection \<noteq> None \<and> \<not> startsWith trimmed ''--'' then
        parse_lines rest currentSection
          (if currentSection = Some True
           then (fst sections @ line @ [CHR 0x0A], snd sections)
           else (fst sections, snd sections @ line @ [CHR 0x0A]))
      else parse_lines rest currentSection sections)"

definition parseCQLFile :: "string \<Rightarrow> string + (string \<times> string)" where
  "parseCQLFile content =
     (let sections = parse_lines (split (CHR 0x0A) content) None ([], []) in
      if trim (fst sections) = [] then
        Inl ''CQL migration must contain \"-- +migrate Up\" section''
      else if trim (snd sections) = [] then
        Inl ''CQL migration must contain \"-- +migrate Down\" section''
      else Inr sections)"

definition loadCQLMigration ::
  "fs_env \<Rightarrow> string \<Rightarrow> string \<Rightarrow> fs_state \<Rightarrow> (string + migration) \<times> fs_state" where
  "loadCQLMigration fe ident filename st =
     (let st1 = st\<lparr>opened := opened st @ [filename]\<rparr>;
          wrap = (\<lambda>err. ''Failed to load CQL migration '' @ filename @ '': '' @ err) in
      case readFile fe filename of
        Inl err \<Rightarrow> (Inl (wrap err), st1)
      | Inr content \<Rightarrow>
          (case parseCQLFile content of
             Inl err \<Rightarrow> (Inl (wrap (render err)), st1)
           | Inr sections \<Rightarrow>
               (Inr \<lparr>m_id = ident, m_filename = filename,
                     m_up = fst sections, m_down = snd sections,
                     m_appliedAt = None\<rparr>, st1)))"

definition loadMigrationFile ::
  "fs_env \<Rightarrow> string \<Rightarrow> string \<Rightarrow> fs_state \<Rightarrow> (string + migration) \<times> fs_state" where
  "loadMigrationFile fe ident filename st =
     (let ext = extname filename in
      if ext = ''.ts'' then loadTypeScriptMigration fe ident filename st
      else if ext = ''.cql'' then loadCQLMigration fe ident filename st
      else (Inl (''Unsupported migration file extension: '' @ ext), st))"

text \<open>The \<^verbatim>\<open>for (const filename of files)\<close> loop; the id is extracted outside the \<^verbatim>\<open>try\<close>.\<close>

fun load_loop ::
  "fs_env \<Rightarrow> string list \<Rightarrow> migration list \<Rightarrow> fs_state \<Rightarrow> (string + migration list) \<times> fs_state" where
  "load_loop fe [] migrations st = (Inr migrations, st)"
| "load_loop fe (filename # rest) migrations st =
     (case extractMigrationId filename of
        Inl err \<Rightarrow> (Inl err, st)
      | Inr ident \<Rightarrow>
          (case loadMigrationFile fe ident filename st of
             (Inl err, st1) \<Rightarrow>
               (Inl err, st1\<lparr>fs_log := fs_log st1 @
                   [(Error, ''Failed to load migration '' @ filename @ '': '' @ render err)]\<rparr>)
           | (Inr migration, st1) \<Rightarrow> load_loop fe rest (migrations @ [migration]) st1))"

definition recognized :: "string \<Rightarrow> bool" where
  "recognized file = (endsWith file ''.ts'' \<or> endsWith file ''.cql'')"

definition migration_files :: "string list \<Rightarrow> string list" where
  "migration_files listing = sort (filter recognized listing)"

definition loadMigrations ::
  "fs_env \<Rightarrow> string \<Rightarrow> fs_state \<Rightarrow> (string + migration list) \<times> fs_state" where
  "loadMigrations fe migrationsDir st =
     (case readdir fe of
        None \<Rightarrow>
          (Inr [], st\<lparr>fs_log := fs_log st @
              [(Warn, ''Migrations directory does not exist: '' @ migrationsDir)]\<rparr>)
      | Some listing \<Rightarrow> load_loop fe (migration_files listing) [] st)"

section \<open>Example inputs\<close>

text \<open>A database that rejects nothing, with a clock that advances by one at each reading.\<close>

definition env_ok :: env where
  "env_ok = \<lparr>reject = (\<lambda>h q. None), clock = (\<lambda>n. int n), md5 = (\<lambda>s. s),
             keyspace = ''ks'', migrationsTable = ''schema_migrations''\<rparr>"

definition world_empty :: world where
  "world_empty = \<lparr>rows = [], table_exists = False, calls = [], log = [], ticks = 0\<rparr>"

definition mig :: "string \<Rightarrow> string \<Rightarrow> string \<Rightarrow> string \<Rightarrow> migration" where
  "mig i f u d = \<lparr>m_id = i, m_filename = f, m_up = u, m_down = d, m_appliedAt = None\<rparr>"

definition applied_row :: "string \<Rightarrow> string \<Rightarrow> int \<Rightarrow> row" where
  "applied_row i f t = \<lparr>r_id = i, r_filename = f, r_applied_at = Some t, r_checksum = []\<rparr>"

definition mig_users :: migration where
  "mig_users = mig ''001'' ''001_create_users.ts''
                 ''CREATE TABLE users (id UUID PRIMARY KEY);'' ''DROP TABLE users;''"

definition mig_index :: migration where
  "mig_index = mig ''002'' ''002_add_email_index.ts''
                 ''CREATE INDEX ON users (email);'' ''DROP INDEX users_email_idx;''"

text \<open>A tracking table holding a record \<open>009\<close> for which no definition is loaded.\<close>

definition world_orphan :: world where
  "world_orphan = world_empty\<lparr>rows := [applied_row ''009'' ''009_gone.ts'' 5]\<rparr>"

text \<open>Two applied records, the later of which (\<open>002\<close>) is the most recent.\<close>

definition world_two :: world where
  "world_two = world_empty\<lparr>rows := [applied_row ''001'' ''001_create_users.ts'' 3,
                                      applied_row ''002'' ''002_add_email_index.ts'' 9]\<rparr>"





section \<open>The specification's notion of a comment fragment\<close>


section \<open>What a dry run logs\<close>

text \<open>The messages that a dry run of one script, one apply step and one rollback step emits.\<close>

definition dry_messages :: "string \<Rightarrow> (level \<times> string) list" where
  "dry_messages script =
     map (\<lambda>s. (Info, ''[DRY RUN] Would execute: '' @ s)) (statements script)"

definition dry_apply_log :: "migration \<Rightarrow> (level \<times> string) list" where
  "dry_apply_log m =
     [(Info, ''Applying migration: '' @ m_filename m)] @ dry_messages (m_up m)
     @ [(Success, ''Applied migration: '' @ m_filename m)]"

definition dry_rollback_log :: "migration \<Rightarrow> (level \<times> string) list" where
  "dry_rollback_log m =
     [(Info, ''Rolling back migration: '' @ m_filename m)] @ dry_messages (m_down m)
     @ [(Success, ''Rolled back migration: '' @ m_filename m)]"

section \<open>The calls that applying migrations makes\<close>

text \<open>
  The row that \<^verbatim>\<open>recordMigration\<close> inserts at the \<open>t\<close>-th reading of the clock, the
  calls of one successful apply step, and those of a run of successful steps.
\<close>

definition apply_row :: "env \<Rightarrow> nat \<Rightarrow> migration \<Rightarrow> row" where
  "apply_row e t m =
     \<lparr>r_id = m_id m, r_filename = m_filename m, r_applied_at = Some (clock e t),
      r_checksum = md5 e (m_up m)\<rparr>"

definition apply_calls :: "env \<Rightarrow> nat \<Rightarrow> migration \<Rightarrow> query list" where
  "apply_calls e t m = map Statement (statements (m_up m)) @ [InsertRow (apply_row e t m)]"

fun up_calls :: "env \<Rightarrow> nat \<Rightarrow> migration list \<Rightarrow> query list" where
  "up_calls e t [] = []"
| "up_calls e t (m # ms) = apply_calls e t m @ up_calls e (Suc t) ms"


section \<open>The calls and warnings of rolling back\<close>

text \<open>
  The calls of one successful rollback step; over a list of applied records, the calls
  of the steps for those that have a definition, the ids of those, and the warnings for
  the others; and the warnings a world has logged.
\<close>

definition rollback_calls :: "migration \<Rightarrow> query list" where
  "rollback_calls m = map Statement (statements (m_down m)) @ [DeleteRow (m_id m)]"

definition reset_calls :: "migration list \<Rightarrow> migration list \<Rightarrow> query list" where
  "reset_calls fileMigrations as =
     concat (map (\<lambda>a. case find (\<lambda>m. m_id m = m_id a) fileMigrations of
                         None \<Rightarrow> [] | Some t \<Rightarrow> rollback_calls t) as)"

definition rolled_back_ids :: "migration list \<Rightarrow> migration list \<Rightarrow> string list" where
  "rolled_back_ids fileMigrations as =
     map m_id (filter (\<lambda>a. find (\<lambda>m. m_id m = m_id a) fileMigrations \<noteq> None) as)"

definition missing_warnings :: "migration list \<Rightarrow> migration list \<Rightarrow> (level \<times> string) list" where
  "missing_warnings fileMigrations as =
     map (\<lambda>a. (Warn, ''Migration file not found for applied migration: '' @ m_filename a))
       (filter (\<lambda>a. find (\<lambda>m. m_id m = m_id a) fileMigrations = None) as)"

definition warnings :: "world \<Rightarrow> (level \<times> string) list" where
  "warnings w = filter (\<lambda>x. fst x = Warn) (log w)"


text \<open>One applied record, whose definition is loaded.\<close>

definition world_one :: world where
  "world_one = world_empty\<lparr>rows := [applied_row ''001'' ''001_create_users.ts'' 3]\<rparr>"

text \<open>The time of a row of the tracking table, as the comparator of \<open>down\<close> reads it.\<close>

definition rowTime :: "row \<Rightarrow> int" where
  "rowTime r = appliedTime (row_to_migration r)"

text \<open>
  A directory with one well-formed plain-script migration, one file whose name has no
  leading digits and one file that is not a migration.
\<close>

definition cql_users :: string where
  "cql_users = ''-- +migrate Up'' @ [CHR 0x0A] @ ''CREATE TABLE users (id UUID PRIMARY KEY);''
               @ [CHR 0x0A] @ ''-- +migrate Down'' @ [CHR 0x0A] @ ''DROP TABLE users;'' @ [CHR 0x0A]"

definition fs_example :: fs_env where
  "fs_example =
     \<lparr>readdir = Some [''users.cql'', ''notes.txt'', ''001_create_users.cql''],
      import_module = (\<lambda>name. Inl ''Error: Cannot find module''),
      readFile = (\<lambda>name. Inr cql_users)\<rparr>"

definition fs_start :: fs_state where
  "fs_start = \<lparr>fs_log = [], opened = []\<rparr>"

section \<open>Basic facts about the logger and the client\<close>

lemma logger_sel [simp]:
  "rows (logger l m w) = rows w" "calls (logger l m w) = calls w"
  "ticks (logger l m w) = ticks w" "table_exists (logger l m w) = table_exists w"
  "log (logger l m w) = log w @ [(l, m)]"
  by (simp_all add: logger_def)

lemma client_execute_sel:
  "calls (snd (client_execute e q w)) = calls w @ [q]"
  "log (snd (client_execute e q w)) = log w"
  "ticks (snd (client_execute e q w)) = ticks w"
  by (simp_all add: client_execute_def Let_def split: option.splits query.splits)

lemma getApplied_rows [simp]: "rows (snd (getAppliedMigrations e w)) = rows w"
  by (simp add: getAppliedMigrations_def initializeMigrationsTable_def client_execute_def Let_def
      split: option.splits prod.splits sum.splits outcome.splits)

lemma getApplied_ticks [simp]: "ticks (snd (getAppliedMigrations e w)) = ticks w"
  by (simp add: getAppliedMigrations_def initializeMigrationsTable_def client_execute_def Let_def
      split: option.splits prod.splits sum.splits outcome.splits)

lemma getApplied_calls:
  "calls (snd (getAppliedMigrations e w)) = calls w @ [CreateTable] \<or>
   calls (snd (getAppliedMigrations e w)) = calls w @ [CreateTable, SelectApplied]"
  by (simp add: getAppliedMigrations_def initializeMigrationsTable_def client_execute_def Let_def
      split: option.splits prod.splits sum.splits outcome.splits)

lemma getApplied_Inr:
  assumes "getAppliedMigrations e w = (Inr applied, w1)"
  shows "applied = map row_to_migration (rows w)"
    and "rows w1 = rows w"
    and "ticks w1 = ticks w"
    and "calls w1 = calls w @ [CreateTable, SelectApplied]"
    and "log w1 = log w @ [(Debug, ''Migrations table '' @ migrationsTable e @ '' initialized'')]"
  using assms
  by (auto simp add: getAppliedMigrations_def initializeMigrationsTable_def client_execute_def Let_def
      split: option.splits prod.splits sum.splits outcome.splits)

text \<open>When the database rejects neither of the two initial calls, the read succeeds.\<close>

lemma getApplied_ok:
  assumes "reject e (calls w) CreateTable = None"
    and "reject e (calls w @ [CreateTable]) SelectApplied = None"
  shows "getAppliedMigrations e w =
           (Inr (map row_to_migration (rows w)), snd (getAppliedMigrations e w))"
  using assms
  by (simp add: getAppliedMigrations_def initializeMigrationsTable_def client_execute_def Let_def)

lemma getApplied_env_ok:
  "getAppliedMigrations env_ok w =
     (Inr (map row_to_migration (rows w)), snd (getAppliedMigrations env_ok w))"
  by (rule getApplied_ok) (simp_all add: env_ok_def)

section \<open>status\<close>

lemma appliedMap_eq_None: "appliedMap ms i = None \<longleftrightarrow> i \<notin> m_id ` set ms"
  by (simp add: appliedMap_def map_of_eq_None_iff image_image)

text \<open>
  Claim C10. Whenever the applied records can be read, \<open>status\<close> returns one entry per
  loaded definition, in load order, each classified by whether its id is in the
  tracking table; an applied record whose id matches no loaded definition has no entry,
  and \<open>status\<close> neither raises for it nor changes the table.
\<close>

theorem status_entries:
  assumes "getAppliedMigrations e w = (Inr applied, w1)"
  shows "\<exists>entries. status e (Inr fileMigrations) w = (Inr entries, w1)
           \<and> length entries = length fileMigrations
           \<and> map s_id entries = map m_id fileMigrations
           \<and> map s_filename entries = map m_filename fileMigrations
           \<and> map s_status entries =
               map (\<lambda>m. if m_id m \<in> r_id ` set (rows w) then Applied else Pending) fileMigrations
           \<and> (\<forall>r \<in> set (rows w). r_id r \<notin> m_id ` set fileMigrations
                 \<longrightarrow> r_id r \<notin> s_id ` set entries)
           \<and> rows w1 = rows w"
proof -
  have ap: "applied = map row_to_migration (rows w)" and rw: "rows w1 = rows w"
    using getApplied_Inr[OF assms] by simp_all
  have ids: "m_id ` set applied = r_id ` set (rows w)"
    by (simp add: ap image_image row_to_migration_def)
  let ?entries = "map (status_entry (appliedMap applied)) fileMigrations"
  have st: "status e (Inr fileMigrations) w = (Inr ?entries, w1)"
    by (simp add: status_def assms)
  have "map s_status ?entries =
          map (\<lambda>m. if m_id m \<in> r_id ` set (rows w) then Applied else Pending) fileMigrations"
    by (simp add: status_entry_def appliedMap_eq_None ids)
  moreover have "s_id ` set ?entries = m_id ` set fileMigrations"
    by (simp add: image_image status_entry_def)
  ultimately show ?thesis
    using st rw by (intro exI[of _ ?entries]) (simp add: status_entry_def comp_def)
qed

theorem status_entries_witness:
  "\<exists>entries w1.
     status env_ok (Inr [mig_users, mig_index])
       (world_empty\<lparr>rows := [applied_row ''009'' ''009_gone.ts'' 5,
                             applied_row ''001'' ''001_create_users.ts'' 7]\<rparr>) = (Inr entries, w1)
     \<and> map s_id entries = [''001'', ''002'']
     \<and> map s_status entries = [Applied, Pending]
     \<and> ''009'' \<notin> s_id ` set entries"
  using status_entries[OF getApplied_env_ok, where fileMigrations = "[mig_users, mig_index]"]
  by (fastforce simp add: mig_users_def mig_index_def mig_def applied_row_def world_empty_def)

section \<open>executeCQL: frame\<close>

lemma client_execute_Statement_frame [simp]:
  "rows (snd (client_execute e (Statement s) w)) = rows w"
  "table_exists (snd (client_execute e (Statement s) w)) = table_exists w"
  by (simp_all add: client_execute_def Let_def split: option.splits)

lemma run_statements_dry:
  "run_statements e True ss w =
     (Returned, w\<lparr>log := log w @ map (\<lambda>s. (Info, ''[DRY RUN] Would execute: '' @ s)) ss\<rparr>)"
  by (induction ss arbitrary: w) (simp_all add: logger_def)

lemma run_statements_live_frame:
  "rows (snd (run_statements e False ss w)) = rows w \<and>
   ticks (snd (run_statements e False ss w)) = ticks w \<and>
   table_exists (snd (run_statements e False ss w)) = table_exists w"
proof (induction ss arbitrary: w)
  case Nil
  show ?case by simp
next
  case (Cons s ss)
  obtain r w1 where ce: "client_execute e (Statement s) w = (r, w1)"
    by (cases "client_execute e (Statement s) w")
  have fr: "rows w1 = rows w" "ticks w1 = ticks w" "table_exists w1 = table_exists w"
    using client_execute_Statement_frame[of e s w] client_execute_sel(3)[of e "Statement s" w] ce
    by simp_all
  show ?case
  proof (cases r)
    case (Inl err)
    then show ?thesis using ce fr by simp
  next
    case (Inr x)
    then show ?thesis
      using ce fr Cons.IH[of "logger Debug (''Executed: '' @ take 50 s @ ''...'') w1"] by simp
  qed
qed

lemma run_statements_frame [simp]:
  "rows (snd (run_statements e d ss w)) = rows w"
  "ticks (snd (run_statements e d ss w)) = ticks w"
  "table_exists (snd (run_statements e d ss w)) = table_exists w"
  using run_statements_live_frame[of e ss w]
  by (cases d; simp add: run_statements_dry)+

lemma executeCQL_frame [simp]:
  "rows (snd (executeCQL e cql d w)) = rows w"
  "ticks (snd (executeCQL e cql d w)) = ticks w"
  "table_exists (snd (executeCQL e cql d w)) = table_exists w"
  by (simp_all add: executeCQL_def)

section \<open>down\<close>

lemma removeMigrationRecord_rows:
  "removeMigrationRecord e i w = (Returned, w') \<Longrightarrow> rows w' = filter (\<lambda>r. r_id r \<noteq> i) (rows w)"
  "removeMigrationRecord e i w = (Raised err, w') \<Longrightarrow> rows w' = rows w"
  by (auto simp add: removeMigrationRecord_def client_execute_def Let_def
      split: option.splits prod.splits sum.splits)

lemma executeCQL_result:
  assumes "executeCQL e cql d w = (r, w1)"
  shows "rows w1 = rows w" and "ticks w1 = ticks w"
  using executeCQL_frame(1,2)[of e cql d w] assms by simp_all

lemma rollback_rows:
  "rollback_migration e False m w = (Returned, w') \<Longrightarrow>
     rows w' = filter (\<lambda>r. r_id r \<noteq> m_id m) (rows w)"
  "rollback_migration e d m w = (Raised err, w') \<Longrightarrow> rows w' = rows w"
  "rollback_migration e True m w = (r, w') \<Longrightarrow> rows w' = rows w"
  by (auto simp add: rollback_migration_def Let_def
        split: prod.splits outcome.splits if_splits
        dest!: removeMigrationRecord_rows executeCQL_result(1))

lemma rollback_rows_subset:
  assumes "rollback_migration e d m w = (r, w')" "x \<in> set (rows w)" "r_id x \<noteq> m_id m"
  shows "x \<in> set (rows w')"
proof (cases r)
  case Returned
  show ?thesis
  proof (cases d)
    case True
    then show ?thesis using assms rollback_rows(3) by metis
  next
    case False
    then show ?thesis using assms Returned rollback_rows(1)[of e m w w'] by simp
  qed
next
  case (Raised err)
  then show ?thesis using assms rollback_rows(2) by metis
qed

lemma sortApplied_hd_max:
  assumes "sortApplied applied = lastApplied # rest"
  shows "lastApplied \<in> set applied" and "\<forall>a \<in> set applied. appliedTime a \<le> appliedTime lastApplied"
proof -
  have s: "set (sortApplied applied) = set applied" by (simp add: sortApplied_def)
  show "lastApplied \<in> set applied" using s assms by auto
  have "sorted (map (\<lambda>m. - appliedTime m) (sortApplied applied))"
    by (simp add: sortApplied_def)
  then have "\<forall>a \<in> set rest. - appliedTime lastApplied \<le> - appliedTime a"
    using assms by simp
  then show "\<forall>a \<in> set applied. appliedTime a \<le> appliedTime lastApplied"
    using s assms by auto
qed

text \<open>
  Claim C5. With a non-empty applied set, \<open>down\<close> takes the first record of the
  descending sort, whose time is maximal, as its only target: when no loaded definition
  has its id the call raises, in the state the initial read left (no statement, no
  delete, no other record tried); otherwise it is the rollback of that one definition.
  Every row with another id is still in the table afterwards.
\<close>

theorem down_target:
  assumes "getAppliedMigrations e (logger Info ''Starting migration down...'' w) = (Inr applied, w1)"
    and "applied \<noteq> []"
  shows "\<exists>lastApplied rest.
           sortApplied applied = lastApplied # rest
         \<and> lastApplied \<in> set applied
         \<and> (\<forall>a \<in> set applied. appliedTime a \<le> appliedTime lastApplied)
         \<and> (case find (\<lambda>m. m_id m = m_id lastApplied) fileMigrations of
               None \<Rightarrow>
                 down e dryRun (Inr fileMigrations) w =
                   (Raised (''Migration file not found for applied migration: ''
                            @ m_filename lastApplied), w1)
             | Some target \<Rightarrow>
                 down e dryRun (Inr fileMigrations) w = rollback_migration e dryRun target w1)
         \<and> (\<forall>r \<in> set (rows w). r_id r \<noteq> m_id lastApplied
               \<longrightarrow> r \<in> set (rows (snd (down e dryRun (Inr fileMigrations) w))))"
proof -
  have "sortApplied applied \<noteq> []"
    using assms(2) by (metis length_sort sortApplied_def length_0_conv)
  then obtain lastApplied rest where sa: "sortApplied applied = lastApplied # rest"
    by (cases "sortApplied applied") auto
  have rw: "rows w1 = rows w" using getApplied_Inr(2)[OF assms(1)] by simp
  have dn: "(case find (\<lambda>m. m_id m = m_id lastApplied) fileMigrations of
               None \<Rightarrow>
                 down e dryRun (Inr fileMigrations) w =
                   (Raised (''Migration file not found for applied migration: ''
                            @ m_filename lastApplied), w1)
             | Some target \<Rightarrow>
                 down e dryRun (Inr fileMigrations) w = rollback_migration e dryRun target w1)"
    using assms sa by (simp add: down_def split: option.splits)
  have keep: "\<forall>r \<in> set (rows w). r_id r \<noteq> m_id lastApplied
               \<longrightarrow> r \<in> set (rows (snd (down e dryRun (Inr fileMigrations) w)))"
  proof (cases "find (\<lambda>m. m_id m = m_id lastApplied) fileMigrations")
    case None
    then show ?thesis using dn rw by simp
  next
    case (Some target)
    then have eq: "m_id target = m_id lastApplied"
      by (auto simp: find_Some_iff)
    have "down e dryRun (Inr fileMigrations) w = rollback_migration e dryRun target w1"
      using dn Some by simp
    then show ?thesis
      using rollback_rows_subset[of e dryRun target w1] rw eq
      by (metis prod.collapse)
  qed
  show ?thesis using sa sortApplied_hd_max[OF sa] dn keep by blast
qed

theorem down_target_witness:
  "fst (down env_ok False (Inr [mig_users]) world_two) =
     Raised ''Migration file not found for applied migration: 002_add_email_index.ts''
   \<and> rows (snd (down env_ok False (Inr [mig_users]) world_two)) = rows world_two"
  using down_target[OF getApplied_env_ok, where w = world_two and fileMigrations = "[mig_users]"
      and dryRun = False]
  by (auto simp add: world_two_def world_empty_def applied_row_def row_to_migration_def
      sortApplied_def appliedTime_def mig_users_def mig_def)

section \<open>reset: the count in the completion message\<close>

text \<open>
  Claim C1. With one applied record and no loaded definition, \<open>reset\<close> skips the
  record with a warning, issues no delete and leaves the row in place, and still
  reports one migration as rolled back: the count is the number of applied records.
\<close>

theorem reset_count_includes_skipped:
  "reset env_ok False (Inr []) world_orphan =
    (Returned, world_orphan\<lparr>table_exists := True, calls := [CreateTable, SelectApplied],
       log := [(Info, ''Starting migration reset...''),
        (Debug, ''Migrations table schema_migrations initialized''),
        (Info, ''Found 1 applied migration(s) to rollback''),
        (Warn, ''Migration file not found for applied migration: 009_gone.ts''),
        (Success, ''Successfully rolled back 1 migration(s)'')]\<rparr>)"
  by code_simp

section \<open>executeCQL: fragments and fail-fast execution\<close>

lemma split_nonempty: "split c s \<noteq> []"
  by (induction s) (auto split: list.splits)


lemma split_no_sep: "f \<in> set (split c s) \<Longrightarrow> c \<notin> set f"
  by (induction s arbitrary: f) (auto split: list.splits if_splits simp: split_nonempty)







subsection \<open>Running the statements against the database\<close>

lemma run_statements_live_Returned:
  "run_statements e False ss w = (Returned, w') \<Longrightarrow> calls w' = calls w @ map Statement ss"
proof (induction ss arbitrary: w)
  case Nil
  then show ?case by simp
next
  case (Cons s ss)
  obtain r w1 where ce: "client_execute e (Statement s) w = (r, w1)"
    by (cases "client_execute e (Statement s) w")
  have c1: "calls w1 = calls w @ [Statement s]"
    using client_execute_sel(1)[of e "Statement s" w] ce by simp
  show ?case
  proof (cases r)
    case (Inl err)
    then show ?thesis using Cons.prems ce by simp
  next
    case (Inr x)
    then have "run_statements e False ss (logger Debug (''Executed: '' @ take 50 s @ ''...'') w1)
                 = (Returned, w')"
      using Cons.prems ce by simp
    from Cons.IH[OF this] show ?thesis using c1 by simp
  qed
qed










section \<open>Dry runs of up and down\<close>

lemma apply_migration_dry:
  "apply_migration e True m w = (Returned, w\<lparr>log := log w @ dry_apply_log m\<rparr>)"
  by (simp add: apply_migration_def executeCQL_def run_statements_dry dry_apply_log_def
      dry_messages_def logger_def)

lemma rollback_migration_dry:
  "rollback_migration e True m w = (Returned, w\<lparr>log := log w @ dry_rollback_log m\<rparr>)"
  by (simp add: rollback_migration_def executeCQL_def run_statements_dry dry_rollback_log_def
      dry_messages_def logger_def)

lemma up_loop_dry:
  "up_loop e True ms w = (Returned, w\<lparr>log := log w @ concat (map dry_apply_log ms)\<rparr>)"
  by (induction ms arbitrary: w) (simp_all add: apply_migration_dry)

lemma up_dry_frame:
  "rows (snd (up e True loaded w)) = rows w \<and> ticks (snd (up e True loaded w)) = ticks w
   \<and> calls (snd (up e True loaded w)) = calls (snd (getAppliedMigrations e w))"
proof -
  let ?w0 = "logger Info ''Starting migration up...'' w"
  obtain res w1 where g: "getAppliedMigrations e ?w0 = (res, w1)"
    by (cases "getAppliedMigrations e ?w0")
  have f: "rows w1 = rows w" "ticks w1 = ticks w"
    using getApplied_rows[of e ?w0] getApplied_ticks[of e ?w0] g by simp_all
  have "calls (snd (getAppliedMigrations e ?w0)) = calls (snd (getAppliedMigrations e w))"
    by (simp add: getAppliedMigrations_def initializeMigrationsTable_def client_execute_def Let_def
      logger_def split: option.splits)
  then have c: "calls w1 = calls (snd (getAppliedMigrations e w))" using g by simp
  show ?thesis using g f c
    by (simp add: up_def up_loop_dry Let_def split: sum.splits)
qed

lemma down_dry_frame:
  "rows (snd (down e True loaded w)) = rows w \<and> ticks (snd (down e True loaded w)) = ticks w
   \<and> calls (snd (down e True loaded w)) = calls (snd (getAppliedMigrations e w))"
proof -
  let ?w0 = "logger Info ''Starting migration down...'' w"
  obtain res w1 where g: "getAppliedMigrations e ?w0 = (res, w1)"
    by (cases "getAppliedMigrations e ?w0")
  have f: "rows w1 = rows w" "ticks w1 = ticks w"
    using getApplied_rows[of e ?w0] getApplied_ticks[of e ?w0] g by simp_all
  have "calls (snd (getAppliedMigrations e ?w0)) = calls (snd (getAppliedMigrations e w))"
    by (simp add: getAppliedMigrations_def initializeMigrationsTable_def client_execute_def Let_def
      logger_def split: option.splits)
  then have c: "calls w1 = calls (snd (getAppliedMigrations e w))" using g by simp
  show ?thesis using g f c
    by (simp add: down_def rollback_migration_dry Let_def split: sum.splits list.splits option.splits)
qed

text \<open>
  Claim C2. A dry run of \<open>up\<close> or \<open>down\<close> leaves the rows of the tracking table
  as they were and never reads the clock; the only calls it makes on the client are the
  initial table creation and read, so no insert, no delete and no statement of a script
  is sent. When the read succeeds, \<open>up\<close> returns having logged, for each pending
  migration in order, one informational message per fragment of its up-script between
  the messages that announce and close the migration; \<open>down\<close> does the same for
  the fragments of the target's down-script.
\<close>

theorem dry_run_purity:
  "rows (snd (up e True loaded w)) = rows w
   \<and> rows (snd (down e True loaded w)) = rows w
   \<and> ticks (snd (up e True loaded w)) = ticks w
   \<and> ticks (snd (down e True loaded w)) = ticks w
   \<and> (calls (snd (up e True loaded w)) = calls w @ [CreateTable]
        \<or> calls (snd (up e True loaded w)) = calls w @ [CreateTable, SelectApplied])
   \<and> (calls (snd (down e True loaded w)) = calls w @ [CreateTable]
        \<or> calls (snd (down e True loaded w)) = calls w @ [CreateTable, SelectApplied])
   \<and> (\<forall>applied w1.
         getAppliedMigrations e (logger Info ''Starting migration up...'' w) = (Inr applied, w1)
         \<longrightarrow> up e True (Inr fileMigrations) w =
               (Returned,
                w1\<lparr>log := log w1 @
                  (let pending = pendingMigrations fileMigrations applied in
                   if pending = [] then [(Success, ''No pending migrations found'')]
                   else [(Info, ''Found '' @ show_nat (length pending) @ '' pending migration(s)'')]
                        @ concat (map dry_apply_log pending)
                        @ [(Success, ''Successfully applied '' @ show_nat (length pending)
                                     @ '' migration(s)'')])\<rparr>))
   \<and> (\<forall>applied w1 lastApplied rest target.
         getAppliedMigrations e (logger Info ''Starting migration down...'' w) = (Inr applied, w1)
         \<and> sortApplied applied = lastApplied # rest
         \<and> find (\<lambda>m. m_id m = m_id lastApplied) fileMigrations = Some target
         \<longrightarrow> down e True (Inr fileMigrations) w =
               (Returned, w1\<lparr>log := log w1 @ dry_rollback_log target\<rparr>))"
proof (intro conjI allI impI)
  show "rows (snd (up e True loaded w)) = rows w" "ticks (snd (up e True loaded w)) = ticks w"
    using up_dry_frame[of e loaded w] by simp_all
  show "rows (snd (down e True loaded w)) = rows w" "ticks (snd (down e True loaded w)) = ticks w"
    using down_dry_frame[of e loaded w] by simp_all
  show "calls (snd (up e True loaded w)) = calls w @ [CreateTable]
        \<or> calls (snd (up e True loaded w)) = calls w @ [CreateTable, SelectApplied]"
    using up_dry_frame[of e loaded w] getApplied_calls[of e w] by simp
  show "calls (snd (down e True loaded w)) = calls w @ [CreateTable]
        \<or> calls (snd (down e True loaded w)) = calls w @ [CreateTable, SelectApplied]"
    using down_dry_frame[of e loaded w] getApplied_calls[of e w] by simp
next
  fix applied w1
  assume g: "getAppliedMigrations e (logger Info ''Starting migration up...'' w) = (Inr applied, w1)"
  show "up e True (Inr fileMigrations) w =
               (Returned,
                w1\<lparr>log := log w1 @
                  (let pending = pendingMigrations fileMigrations applied in
                   if pending = [] then [(Success, ''No pending migrations found'')]
                   else [(Info, ''Found '' @ show_nat (length pending) @ '' pending migration(s)'')]
                        @ concat (map dry_apply_log pending)
                        @ [(Success, ''Successfully applied '' @ show_nat (length pending)
                                     @ '' migration(s)'')])\<rparr>)"
    using g by (simp add: up_def up_loop_dry Let_def logger_def)
next
  fix applied w1 lastApplied rest target
  assume a: "getAppliedMigrations e (logger Info ''Starting migration down...'' w) = (Inr applied, w1)
         \<and> sortApplied applied = lastApplied # rest
         \<and> find (\<lambda>m. m_id m = m_id lastApplied) fileMigrations = Some target"
  then have "applied \<noteq> []" by (auto simp: sortApplied_def)
  then show "down e True (Inr fileMigrations) w =
               (Returned, w1\<lparr>log := log w1 @ dry_rollback_log target\<rparr>)"
    using a by (simp add: down_def rollback_migration_dry logger_def)
qed

theorem dry_run_purity_witness:
  "log (snd (up env_ok True (Inr [mig_users]) world_empty)) =
     [(Info, ''Starting migration up...''),
      (Debug, ''Migrations table schema_migrations initialized''),
      (Info, ''Found 1 pending migration(s)''),
      (Info, ''Applying migration: 001_create_users.ts''),
      (Info, ''[DRY RUN] Would execute: CREATE TABLE users (id UUID PRIMARY KEY)''),
      (Success, ''Applied migration: 001_create_users.ts''),
      (Success, ''Successfully applied 1 migration(s)'')]
   \<and> calls (snd (up env_ok True (Inr [mig_users]) world_empty)) = [CreateTable, SelectApplied]
   \<and> log (snd (down env_ok True (Inr [mig_users, mig_index]) world_two)) =
     [(Info, ''Starting migration down...''),
      (Debug, ''Migrations table schema_migrations initialized''),
      (Info, ''Rolling back migration: 002_add_email_index.ts''),
      (Info, ''[DRY RUN] Would execute: DROP INDEX users_email_idx''),
      (Success, ''Rolled back migration: 002_add_email_index.ts'')]
   \<and> calls (snd (down env_ok True (Inr [mig_users, mig_index]) world_two)) =
       [CreateTable, SelectApplied]
   \<and> rows (snd (down env_ok True (Inr [mig_users, mig_index]) world_two)) = rows world_two"
proof -
  let ?wu = "snd (getAppliedMigrations env_ok (logger Info ''Starting migration up...'' world_empty))"
  let ?wd = "snd (getAppliedMigrations env_ok (logger Info ''Starting migration down...'' world_two))"
  let ?ad = "map row_to_migration (rows (logger Info ''Starting migration down...'' world_two))"
  note U = dry_run_purity[of env_ok "Inr [mig_users]" world_empty "[mig_users]"]
  note D = dry_run_purity[of env_ok "Inr [mig_users, mig_index]" world_two "[mig_users, mig_index]"]
  have u: "up env_ok True (Inr [mig_users]) world_empty =
             (Returned,
              ?wu\<lparr>log := log ?wu @
                  (let pending = pendingMigrations [mig_users]
                         (map row_to_migration (rows (logger Info ''Starting migration up...'' world_empty))) in
                   if pending = [] then [(Success, ''No pending migrations found'')]
                   else [(Info, ''Found '' @ show_nat (length pending) @ '' pending migration(s)'')]
                        @ concat (map dry_apply_log pending)
                        @ [(Success, ''Successfully applied '' @ show_nat (length pending)
                                     @ '' migration(s)'')])\<rparr>)"
    using U getApplied_env_ok[of "logger Info ''Starting migration up...'' world_empty"] by blast
  have s: "sortApplied ?ad =
             [row_to_migration (applied_row ''002'' ''002_add_email_index.ts'' 9),
              row_to_migration (applied_row ''001'' ''001_create_users.ts'' 3)]"
    by code_simp
  have f: "find (\<lambda>m. m_id m =
                  m_id (row_to_migration (applied_row ''002'' ''002_add_email_index.ts'' 9)))
             [mig_users, mig_index] = Some mig_index"
    by code_simp
  have d: "down env_ok True (Inr [mig_users, mig_index]) world_two =
             (Returned, ?wd\<lparr>log := log ?wd @ dry_rollback_log mig_index\<rparr>)"
    using D getApplied_env_ok[of "logger Info ''Starting migration down...'' world_two"] s f
    by blast
  have "log (snd (up env_ok True (Inr [mig_users]) world_empty)) =
     [(Info, ''Starting migration up...''),
      (Debug, ''Migrations table schema_migrations initialized''),
      (Info, ''Found 1 pending migration(s)''),
      (Info, ''Applying migration: 001_create_users.ts''),
      (Info, ''[DRY RUN] Would execute: CREATE TABLE users (id UUID PRIMARY KEY)''),
      (Success, ''Applied migration: 001_create_users.ts''),
      (Success, ''Successfully applied 1 migration(s)'')]"
    unfolding u by code_simp
  moreover have "calls (snd (up env_ok True (Inr [mig_users]) world_empty)) =
      [CreateTable, SelectApplied]"
    unfolding u by code_simp
  moreover have "log (snd (down env_ok True (Inr [mig_users, mig_index]) world_two)) =
     [(Info, ''Starting migration down...''),
      (Debug, ''Migrations table schema_migrations initialized''),
      (Info, ''Rolling back migration: 002_add_email_index.ts''),
      (Info, ''[DRY RUN] Would execute: DROP INDEX users_email_idx''),
      (Success, ''Rolled back migration: 002_add_email_index.ts'')]"
    unfolding d by code_simp
  moreover have "calls (snd (down env_ok True (Inr [mig_users, mig_index]) world_two)) =
       [CreateTable, SelectApplied]"
    unfolding d by code_simp
  moreover have "rows (snd (down env_ok True (Inr [mig_users, mig_index]) world_two)) = rows world_two"
    unfolding d by code_simp
  ultimately show ?thesis by blast
qed

section \<open>up: order, recording and fail-fast\<close>

lemma upsert_ids: "r_id ` set (upsert r rs) = insert (r_id r) (r_id ` set rs)"
  by (induction rs) auto

lemma executeCQL_live_Returned:
  "executeCQL e cql False w = (Returned, w') \<Longrightarrow> calls w' = calls w @ map Statement (statements cql)"
  unfolding executeCQL_def by (rule run_statements_live_Returned)


lemma recordMigration_Returned:
  assumes "recordMigration e m w = (Returned, w')"
  shows "calls w' = calls w @ [InsertRow (apply_row e (ticks w) m)]"
    and "rows w' = upsert (apply_row e (ticks w) m) (rows w)"
    and "ticks w' = Suc (ticks w)"
  using assms
  by (auto simp add: recordMigration_def calculateChecksum_def client_execute_def Let_def
      apply_row_def split: option.splits)


lemma apply_migration_Returned:
  assumes "apply_migration e False m w = (Returned, w')"
  shows "calls w' = calls w @ apply_calls e (ticks w) m"
    and "rows w' = upsert (apply_row e (ticks w) m) (rows w)"
    and "ticks w' = Suc (ticks w)"
proof -
  let ?w0 = "logger Info (''Applying migration: '' @ m_filename m) w"
  from assms obtain w1 w2 where
    x: "executeCQL e (m_up m) False ?w0 = (Returned, w1)" and
    r: "recordMigration e m w1 = (Returned, w2)" and
    w': "w' = logger Success (''Applied migration: '' @ m_filename m) w2"
    by (auto simp add: apply_migration_def Let_def split: prod.splits outcome.splits)
  have c1: "calls w1 = calls w @ map Statement (statements (m_up m))"
    using executeCQL_live_Returned[OF x] by simp
  have f1: "rows w1 = rows w" "ticks w1 = ticks w"
    using executeCQL_result[OF x] by simp_all
  show "calls w' = calls w @ apply_calls e (ticks w) m"
    using recordMigration_Returned(1)[OF r] c1 f1 w' by (simp add: apply_calls_def)
  show "rows w' = upsert (apply_row e (ticks w) m) (rows w)"
    using recordMigration_Returned(2)[OF r] f1 w' by simp
  show "ticks w' = Suc (ticks w)"
    using recordMigration_Returned(3)[OF r] f1 w' by simp
qed


lemma up_loop_Returned:
  "up_loop e False ms w = (Returned, w') \<Longrightarrow>
     calls w' = calls w @ up_calls e (ticks w) ms
     \<and> ticks w' = ticks w + length ms
     \<and> r_id ` set (rows w') = r_id ` set (rows w) \<union> m_id ` set ms"
proof (induction ms arbitrary: w)
  case Nil
  then show ?case by simp
next
  case (Cons m ms)
  from Cons.prems obtain w1 where
    a: "apply_migration e False m w = (Returned, w1)" and l: "up_loop e False ms w1 = (Returned, w')"
    by (auto split: prod.splits outcome.splits)
  note A = apply_migration_Returned[OF a]
  have "r_id ` set (rows w1) = insert (m_id m) (r_id ` set (rows w))"
    using A(2) by (simp add: upsert_ids apply_row_def)
  then show ?case using Cons.IH[OF l] A(1,3) by auto
qed



lemma pendingMigrations_rows:
  "pendingMigrations fm (map row_to_migration rs) = filter (\<lambda>m. m_id m \<notin> r_id ` set rs) fm"
  by (simp add: pendingMigrations_def row_to_migration_def image_image comp_def)





section \<open>reset: order, missing definitions and abort\<close>

lemma warnings_logger [simp]:
  "warnings (logger l m w) = (if l = Warn then warnings w @ [(l, m)] else warnings w)"
  by (simp add: warnings_def)

lemma client_execute_warnings [simp]: "warnings (snd (client_execute e q w)) = warnings w"
  using client_execute_sel(2)[of e q w] by (simp add: warnings_def)

lemma run_statements_warnings [simp]: "warnings (snd (run_statements e d ss w)) = warnings w"
proof (cases d)
  case True
  then show ?thesis by (simp add: run_statements_dry warnings_def)
next
  case False
  have "warnings (snd (run_statements e False ss w)) = warnings w"
  proof (induction ss arbitrary: w)
    case Nil
    show ?case by simp
  next
    case (Cons s ss)
    obtain r w1 where ce: "client_execute e (Statement s) w = (r, w1)"
      by (cases "client_execute e (Statement s) w")
    have w1: "warnings w1 = warnings w"
      using client_execute_warnings[of e "Statement s" w] ce by simp
    show ?case
    proof (cases r)
      case (Inl err)
      then show ?thesis using ce w1 by simp
    next
      case (Inr x)
      then show ?thesis
        using ce w1 Cons.IH[of "logger Debug (''Executed: '' @ take 50 s @ ''...'') w1"] by simp
    qed
  qed
  then show ?thesis using False by simp
qed

lemma removeMigrationRecord_Returned:
  assumes "removeMigrationRecord e i w = (Returned, w')"
  shows "calls w' = calls w @ [DeleteRow i]"
    and "rows w' = filter (\<lambda>r. r_id r \<noteq> i) (rows w)"
    and "warnings w' = warnings w"
  using assms
  by (auto simp add: removeMigrationRecord_def client_execute_def Let_def warnings_def
      split: option.splits)


lemma rollback_Returned:
  assumes "rollback_migration e False m w = (Returned, w')"
  shows "calls w' = calls w @ rollback_calls m"
    and "rows w' = filter (\<lambda>r. r_id r \<noteq> m_id m) (rows w)"
    and "warnings w' = warnings w"
proof -
  let ?w0 = "logger Info (''Rolling back migration: '' @ m_filename m) w"
  from assms obtain w1 w2 where
    x: "executeCQL e (m_down m) False ?w0 = (Returned, w1)" and
    r: "removeMigrationRecord e (m_id m) w1 = (Returned, w2)" and
    w': "w' = logger Success (''Rolled back migration: '' @ m_filename m) w2"
    by (auto simp add: rollback_migration_def Let_def split: prod.splits outcome.splits)
  have c1: "calls w1 = calls w @ map Statement (statements (m_down m))"
    using executeCQL_live_Returned[OF x] by simp
  have f1: "rows w1 = rows w"
    using executeCQL_result[OF x] by simp
  have "warnings (snd (executeCQL e (m_down m) False ?w0)) = warnings ?w0"
    by (simp add: executeCQL_def)
  then have g1: "warnings w1 = warnings w"
    unfolding x by simp
  note R = removeMigrationRecord_Returned[OF r]
  show "calls w' = calls w @ rollback_calls m"
    using R(1) c1 w' by (simp add: rollback_calls_def)
  show "rows w' = filter (\<lambda>r. r_id r \<noteq> m_id m) (rows w)"
    using R(2) f1 w' by simp
  show "warnings w' = warnings w"
    using R(3) g1 w' by simp
qed


lemma reset_loop_Returned:
  "reset_loop e False fm as w = (Returned, w') \<Longrightarrow>
     calls w' = calls w @ reset_calls fm as
     \<and> rows w' = filter (\<lambda>r. r_id r \<notin> set (rolled_back_ids fm as)) (rows w)
     \<and> warnings w' = warnings w @ missing_warnings fm as"
proof (induction as arbitrary: w)
  case Nil
  then show ?case
    by (simp add: reset_calls_def rolled_back_ids_def missing_warnings_def)
next
  case (Cons a as)
  show ?case
  proof (cases "find (\<lambda>m. m_id m = m_id a) fm")
    case None
    let ?w = "logger Warn (''Migration file not found for applied migration: '' @ m_filename a) w"
    have "reset_loop e False fm as ?w = (Returned, w')" using Cons.prems None by simp
    from Cons.IH[OF this] show ?thesis
      using None by (simp add: reset_calls_def rolled_back_ids_def missing_warnings_def)
  next
    case (Some t)
    then have tid: "m_id t = m_id a" by (auto simp: find_Some_iff)
    from Cons.prems Some obtain w1 where
      r: "rollback_migration e False t w = (Returned, w1)" and
      l: "reset_loop e False fm as w1 = (Returned, w')"
      by (auto split: prod.splits outcome.splits)
    note R = rollback_Returned[OF r]
    have "filter (\<lambda>r. r_id r \<notin> set (rolled_back_ids fm as)) (filter (\<lambda>r. r_id r \<noteq> m_id a) (rows w))
          = filter (\<lambda>r. r_id r \<notin> set (rolled_back_ids fm (a # as))) (rows w)"
      using Some by (auto simp add: rolled_back_ids_def intro!: filter_cong)
    then show ?thesis
      using Cons.IH[OF l] R Some tid
      by (simp add: reset_calls_def missing_warnings_def)
  qed
qed









section \<open>down and reset on an empty applied set\<close>

lemma down_empty:
  assumes "rows w = []" "reject e (calls w) CreateTable = None"
    "reject e (calls w @ [CreateTable]) SelectApplied = None"
  shows "down e dryRun (Inr fileMigrations) w =
           (Returned,
            w\<lparr>table_exists := True, calls := calls w @ [CreateTable, SelectApplied],
              log := log w @ [(Info, ''Starting migration down...''),
                              (Debug, ''Migrations table '' @ migrationsTable e @ '' initialized''),
                              (Warn, ''No applied migrations found'')]\<rparr>)"
  using assms
  by (simp add: down_def getAppliedMigrations_def initializeMigrationsTable_def
      client_execute_def Let_def logger_def)

lemma reset_empty:
  assumes "rows w = []" "reject e (calls w) CreateTable = None"
    "reject e (calls w @ [CreateTable]) SelectApplied = None"
  shows "reset e dryRun (Inr fileMigrations) w =
           (Returned,
            w\<lparr>table_exists := True, calls := calls w @ [CreateTable, SelectApplied],
              log := log w @ [(Info, ''Starting migration reset...''),
                              (Debug, ''Migrations table '' @ migrationsTable e @ '' initialized''),
                              (Warn, ''No applied migrations found'')]\<rparr>)"
  using assms
  by (simp add: reset_def getAppliedMigrations_def initializeMigrationsTable_def
      client_execute_def Let_def logger_def)

lemma reset_Returned_read:
  assumes "reset e d (Inr fm) w = (Returned, w')"
  shows "\<exists>w1. getAppliedMigrations e (logger Info ''Starting migration reset...'' w) =
           (Inr (map row_to_migration (rows w)), w1)"
proof -
  obtain res w1 where g: "getAppliedMigrations e (logger Info ''Starting migration reset...'' w) = (res, w1)"
    by (cases "getAppliedMigrations e (logger Info ''Starting migration reset...'' w)")
  then obtain applied where "res = Inr applied"
    using assms by (cases res) (auto simp add: reset_def)
  then show ?thesis
    using g getApplied_Inr(1)[of e "logger Info ''Starting migration reset...'' w" applied w1]
    by simp
qed

lemma reset_all_found_rows:
  assumes "reset e False (Inr fm) w = (Returned, w')"
    and "\<forall>r \<in> set (rows w). find (\<lambda>m. m_id m = r_id r) fm \<noteq> None"
  shows "rows w' = []"
proof (cases "rows w = []")
  case True
  from reset_Returned_read[OF assms(1)] obtain w1 where
    g: "getAppliedMigrations e (logger Info ''Starting migration reset...'' w) =
           (Inr (map row_to_migration (rows w)), w1)" by blast
  have "w' = logger Warn ''No applied migrations found'' w1"
    using assms(1) g True by (simp add: reset_def)
  then show ?thesis using getApplied_Inr(2)[OF g] True by simp
next
  case False
  from reset_Returned_read[OF assms(1)] obtain w1 where
    g: "getAppliedMigrations e (logger Info ''Starting migration reset...'' w) =
           (Inr (map row_to_migration (rows w)), w1)" by blast
  let ?applied = "map row_to_migration (rows w)"
  let ?n = "show_nat (length (sortApplied ?applied))"
  let ?w1 = "logger Info (''Found '' @ ?n @ '' applied migration(s) to rollback'') w1"
  from assms(1) g False obtain w2 where
    l: "reset_loop e False fm (sortApplied ?applied) ?w1 = (Returned, w2)"
    and w': "w' = logger Success (''Successfully rolled back '' @ ?n @ '' migration(s)'') w2"
    by (auto simp add: reset_def Let_def split: prod.splits outcome.splits)
  have "rows w' = filter (\<lambda>r. r_id r \<notin> set (rolled_back_ids fm (sortApplied ?applied))) (rows w)"
    using reset_loop_Returned[OF l] w' getApplied_Inr(2)[OF g] by simp
  moreover have "\<forall>r \<in> set (rows w). r_id r \<in> set (rolled_back_ids fm (sortApplied ?applied))"
  proof
    fix r assume r: "r \<in> set (rows w)"
    then have "find (\<lambda>m. m_id m = m_id (row_to_migration r)) fm \<noteq> None"
      using assms(2) by (simp add: row_to_migration_def)
    then have "m_id (row_to_migration r) \<in> set (rolled_back_ids fm (sortApplied ?applied))"
      using r by (auto simp add: rolled_back_ids_def sortApplied_def)
    then show "r_id r \<in> set (rolled_back_ids fm (sortApplied ?applied))"
      by (simp add: row_to_migration_def)
  qed
  ultimately show ?thesis by (simp add: filter_empty_conv)
qed

text \<open>
  Claim C8, as amended. When the tracking table has no rows and the two initial calls
  are not rejected, \<open>down\<close> and \<open>reset\<close> return normally, having made only
  those two calls, logged the warning and changed nothing else. A second \<open>reset\<close>
  right after a first one takes this path when the first was not a dry run, returned,
  and found a loaded definition for every applied record: then no row is left.
\<close>

theorem empty_applied_set:
  "(rows w = [] \<and> reject e (calls w) CreateTable = None
      \<and> reject e (calls w @ [CreateTable]) SelectApplied = None
    \<longrightarrow> down e dryRun (Inr fileMigrations) w =
           (Returned,
            w\<lparr>table_exists := True, calls := calls w @ [CreateTable, SelectApplied],
              log := log w @ [(Info, ''Starting migration down...''),
                              (Debug, ''Migrations table '' @ migrationsTable e @ '' initialized''),
                              (Warn, ''No applied migrations found'')]\<rparr>)
      \<and> reset e dryRun (Inr fileMigrations) w =
           (Returned,
            w\<lparr>table_exists := True, calls := calls w @ [CreateTable, SelectApplied],
              log := log w @ [(Info, ''Starting migration reset...''),
                              (Debug, ''Migrations table '' @ migrationsTable e @ '' initialized''),
                              (Warn, ''No applied migrations found'')]\<rparr>))
   \<and> (\<forall>w1. reset e False (Inr fileMigrations) w = (Returned, w1)
          \<and> (\<forall>r \<in> set (rows w). find (\<lambda>m. m_id m = r_id r) fileMigrations \<noteq> None)
          \<and> reject e (calls w1) CreateTable = None
          \<and> reject e (calls w1 @ [CreateTable]) SelectApplied = None
        \<longrightarrow> rows w1 = []
          \<and> reset e dryRun (Inr fileMigrations) w1 =
              (Returned,
               w1\<lparr>table_exists := True, calls := calls w1 @ [CreateTable, SelectApplied],
                 log := log w1 @ [(Info, ''Starting migration reset...''),
                                 (Debug, ''Migrations table '' @ migrationsTable e @ '' initialized''),
                                 (Warn, ''No applied migrations found'')]\<rparr>))"
proof (intro conjI allI impI)
  assume a: "rows w = [] \<and> reject e (calls w) CreateTable = None
      \<and> reject e (calls w @ [CreateTable]) SelectApplied = None"
  show "down e dryRun (Inr fileMigrations) w =
           (Returned,
            w\<lparr>table_exists := True, calls := calls w @ [CreateTable, SelectApplied],
              log := log w @ [(Info, ''Starting migration down...''),
                              (Debug, ''Migrations table '' @ migrationsTable e @ '' initialized''),
                              (Warn, ''No applied migrations found'')]\<rparr>)"
    using a by (intro down_empty) simp_all
  show "reset e dryRun (Inr fileMigrations) w =
           (Returned,
            w\<lparr>table_exists := True, calls := calls w @ [CreateTable, SelectApplied],
              log := log w @ [(Info, ''Starting migration reset...''),
                              (Debug, ''Migrations table '' @ migrationsTable e @ '' initialized''),
                              (Warn, ''No applied migrations found'')]\<rparr>)"
    using a by (intro reset_empty) simp_all
next
  fix w1
  assume b: "reset e False (Inr fileMigrations) w = (Returned, w1)
          \<and> (\<forall>r \<in> set (rows w). find (\<lambda>m. m_id m = r_id r) fileMigrations \<noteq> None)
          \<and> reject e (calls w1) CreateTable = None
          \<and> reject e (calls w1 @ [CreateTable]) SelectApplied = None"
  then show e1: "rows w1 = []" using reset_all_found_rows by blast
  show "reset e dryRun (Inr fileMigrations) w1 =
              (Returned,
               w1\<lparr>table_exists := True, calls := calls w1 @ [CreateTable, SelectApplied],
                 log := log w1 @ [(Info, ''Starting migration reset...''),
                                 (Debug, ''Migrations table '' @ migrationsTable e @ '' initialized''),
                                 (Warn, ''No applied migrations found'')]\<rparr>)"
    using b e1 by (intro reset_empty) simp_all
qed

theorem empty_applied_set_witness:
  "log (snd (down env_ok False (Inr [mig_users]) world_empty)) =
     [(Info, ''Starting migration down...''),
      (Debug, ''Migrations table schema_migrations initialized''),
      (Warn, ''No applied migrations found'')]
   \<and> rows (snd (reset env_ok False (Inr [mig_users]) world_one)) = []
   \<and> log (snd (reset env_ok False (Inr [mig_users])
                 (snd (reset env_ok False (Inr [mig_users]) world_one)))) =
       log (snd (reset env_ok False (Inr [mig_users]) world_one)) @
       [(Info, ''Starting migration reset...''),
        (Debug, ''Migrations table schema_migrations initialized''),
        (Warn, ''No applied migrations found'')]"
proof -
  let ?F = "[mig_users]"
  let ?w1 = "snd (reset env_ok False (Inr ?F) world_one)"
  note A = empty_applied_set[of world_empty env_ok False ?F]
  have a: "rows world_empty = [] \<and> reject env_ok (calls world_empty) CreateTable = None
      \<and> reject env_ok (calls world_empty @ [CreateTable]) SelectApplied = None"
    by (simp add: world_empty_def env_ok_def)
  have "down env_ok False (Inr ?F) world_empty =
           (Returned,
            world_empty\<lparr>table_exists := True, calls := calls world_empty @ [CreateTable, SelectApplied],
              log := log world_empty @ [(Info, ''Starting migration down...''),
                              (Debug, ''Migrations table '' @ migrationsTable env_ok @ '' initialized''),
                              (Warn, ''No applied migrations found'')]\<rparr>)"
    using A a by blast
  then have p1: "log (snd (down env_ok False (Inr [mig_users]) world_empty)) =
     [(Info, ''Starting migration down...''),
      (Debug, ''Migrations table schema_migrations initialized''),
      (Warn, ''No applied migrations found'')]"
    by (simp add: world_empty_def env_ok_def)
  have "fst (reset env_ok False (Inr ?F) world_one) = Returned"
    by code_simp
  then have ev: "reset env_ok False (Inr ?F) world_one = (Returned, ?w1)"
    by (cases "reset env_ok False (Inr ?F) world_one") simp
  have fd: "\<forall>r \<in> set (rows world_one). find (\<lambda>m. m_id m = r_id r) ?F \<noteq> None"
    by (simp add: world_one_def world_empty_def applied_row_def mig_users_def mig_def)
  have rj: "reject env_ok (calls ?w1) CreateTable = None
          \<and> reject env_ok (calls ?w1 @ [CreateTable]) SelectApplied = None"
    by (simp add: env_ok_def)
  note B = empty_applied_set[of world_one env_ok False ?F]
  have "\<forall>w1. reset env_ok False (Inr ?F) world_one = (Returned, w1)
          \<and> (\<forall>r \<in> set (rows world_one). find (\<lambda>m. m_id m = r_id r) ?F \<noteq> None)
          \<and> reject env_ok (calls w1) CreateTable = None
          \<and> reject env_ok (calls w1 @ [CreateTable]) SelectApplied = None
        \<longrightarrow> rows w1 = []
          \<and> reset env_ok False (Inr ?F) w1 =
              (Returned,
               w1\<lparr>table_exists := True, calls := calls w1 @ [CreateTable, SelectApplied],
                 log := log w1 @ [(Info, ''Starting migration reset...''),
                                 (Debug, ''Migrations table '' @ migrationsTable env_ok @ '' initialized''),
                                 (Warn, ''No applied migrations found'')]\<rparr>)"
    using B by (elim conjE)
  then have "rows ?w1 = []
          \<and> reset env_ok False (Inr ?F) ?w1 =
              (Returned,
               ?w1\<lparr>table_exists := True, calls := calls ?w1 @ [CreateTable, SelectApplied],
                 log := log ?w1 @ [(Info, ''Starting migration reset...''),
                                 (Debug, ''Migrations table '' @ migrationsTable env_ok @ '' initialized''),
                                 (Warn, ''No applied migrations found'')]\<rparr>)"
    using ev fd rj by blast
  then have p2: "rows ?w1 = []" and p3: "log (snd (reset env_ok False (Inr ?F) ?w1)) =
       log ?w1 @
       [(Info, ''Starting migration reset...''),
        (Debug, ''Migrations table schema_migrations initialized''),
        (Warn, ''No applied migrations found'')]"
    by (simp_all add: env_ok_def)
  from p1 p2 p3 show ?thesis by (intro conjI)
qed

text \<open>
  Claim C8 as stated fails in its last clause: after a \<open>reset\<close> that skipped a record
  without definition, the record is still in the table, and a second \<open>reset\<close> does
  not log the warning for an empty applied set but walks the record again.
\<close>

theorem second_reset_not_empty:
  "fst (reset env_ok False (Inr []) world_orphan) = Returned
   \<and> rows (snd (reset env_ok False (Inr []) world_orphan)) \<noteq> []
   \<and> (Warn, ''No applied migrations found'')
       \<notin> set (log (snd (reset env_ok False (Inr [])
                          (snd (reset env_ok False (Inr []) world_orphan)))))
   \<and> (Success, ''Successfully rolled back 1 migration(s)'')
       \<in> set (log (snd (reset env_ok False (Inr [])
                          (snd (reset env_ok False (Inr []) world_orphan)))))"
  by code_simp

section \<open>Round trip of up and down\<close>

text \<open>The definitions to unfold when a run on the example inputs is evaluated.\<close>

lemmas eval_defs = up_def down_def status_def getAppliedMigrations_def initializeMigrationsTable_def
  client_execute_def logger_def recordMigration_def removeMigrationRecord_def calculateChecksum_def
  executeCQL_def statements_def apply_migration_def rollback_migration_def pendingMigrations_def
  sortApplied_def appliedTime_def row_to_migration_def appliedMap_def status_entry_def
  trim_def is_space_def startsWith_def render_def digit_def
  env_ok_def world_empty_def mig_def mig_users_def mig_index_def Let_def

lemma up_read_failed:
  "getAppliedMigrations e (logger Info ''Starting migration up...'' w) = (Inl err, wg)
     \<Longrightarrow> up e d (Inr fm) w = (Raised err, wg)"
  by (simp add: up_def)

lemma down_read_failed:
  "getAppliedMigrations e (logger Info ''Starting migration down...'' w) = (Inl err, wg)
     \<Longrightarrow> down e d (Inr fm) w = (Raised err, wg)"
  by (simp add: down_def)

lemma status_read_failed:
  "getAppliedMigrations e w = (Inl err, wg) \<Longrightarrow> status e (Inr fm) w = (Inl err, wg)"
  by (simp add: status_def)

lemma up_Returned_ids:
  assumes "up e False (Inr fm) w = (Returned, w1)"
  shows "r_id ` set (rows w1) = r_id ` set (rows w) \<union> m_id ` set fm"
proof -
  let ?w0 = "logger Info ''Starting migration up...'' w"
  obtain res wg where g0: "getAppliedMigrations e ?w0 = (res, wg)"
    by (cases "getAppliedMigrations e ?w0")
  obtain applied where res: "res = Inr applied"
  proof (cases res)
    case (Inl err)
    then show ?thesis using up_read_failed[of e w err wg False fm] g0 assms by simp
  next
    case (Inr applied)
    then show ?thesis using that by simp
  qed
  have g: "getAppliedMigrations e ?w0 = (Inr applied, wg)" using g0 res by simp
  note G = getApplied_Inr[OF g]
  let ?pending = "pendingMigrations fm applied"
  have p: "?pending = filter (\<lambda>m. m_id m \<notin> r_id ` set (rows w)) fm"
    using G(1) by (simp add: pendingMigrations_rows)
  have sub: "m_id ` set fm \<subseteq> r_id ` set (rows w) \<union> m_id ` set ?pending"
  proof
    fix x assume "x \<in> m_id ` set fm"
    then obtain m where m: "m \<in> set fm" "x = m_id m" by blast
    show "x \<in> r_id ` set (rows w) \<union> m_id ` set ?pending"
    proof (cases "x \<in> r_id ` set (rows w)")
      case True
      then show ?thesis by simp
    next
      case False
      then have "m \<in> set ?pending" using m unfolding p by simp
      then show ?thesis using m(2) by blast
    qed
  qed
  have sup: "m_id ` set ?pending \<subseteq> m_id ` set fm"
    unfolding p by (rule image_mono) simp
  have key: "r_id ` set (rows w1) = r_id ` set (rows w) \<union> m_id ` set ?pending"
  proof (cases "?pending = []")
    case True
    then have "w1 = logger Success ''No pending migrations found'' wg"
      using assms g by (simp add: up_def)
    then have "rows w1 = rows w" using G(2) by simp
    then show ?thesis unfolding True by simp
  next
    case False
    let ?wf = "logger Info (''Found '' @ show_nat (length ?pending) @ '' pending migration(s)'') wg"
    from False obtain w2 where l: "up_loop e False ?pending ?wf = (Returned, w2)"
      and w1: "w1 = logger Success (''Successfully applied '' @ show_nat (length ?pending)
                                    @ '' migration(s)'') w2"
      using assms g by (auto simp add: up_def Let_def split: prod.splits outcome.splits)
    have "r_id ` set (rows w2) = r_id ` set (rows ?wf) \<union> m_id ` set ?pending"
      using up_loop_Returned[OF l] by (elim conjE)
    moreover have "rows ?wf = rows w" using G(2) by simp
    moreover have "rows w1 = rows w2" using w1 by simp
    ultimately show ?thesis by simp
  qed
  show ?thesis
  proof (intro equalityI)
    show "r_id ` set (rows w1) \<subseteq> r_id ` set (rows w) \<union> m_id ` set fm"
      unfolding key using sup by blast
    show "r_id ` set (rows w) \<union> m_id ` set fm \<subseteq> r_id ` set (rows w1)"
      unfolding key using sub by blast
  qed
qed

lemma status_Inr_statuses:
  assumes "status e (Inr fm) w = (Inr entries, w')"
  shows "map s_status entries =
           map (\<lambda>m. if m_id m \<in> r_id ` set (rows w) then Applied else Pending) fm"
proof -
  obtain res wg where g0: "getAppliedMigrations e w = (res, wg)"
    by (cases "getAppliedMigrations e w")
  obtain applied where res: "res = Inr applied"
  proof (cases res)
    case (Inl err)
    then show ?thesis using status_read_failed[of e w err wg fm] g0 assms by simp
  next
    case (Inr applied)
    then show ?thesis using that by simp
  qed
  have g: "getAppliedMigrations e w = (Inr applied, wg)" using g0 res by simp
  have ap: "applied = map row_to_migration (rows w)" using getApplied_Inr(1)[OF g] .
  have ids: "m_id ` set applied = r_id ` set (rows w)"
    by (simp add: ap image_image row_to_migration_def)
  have "entries = map (status_entry (appliedMap applied)) fm"
    using assms g by (simp add: status_def)
  then show ?thesis by (simp add: status_entry_def appliedMap_eq_None ids)
qed

lemma down_Returned_rows:
  assumes "down e False (Inr fm) w = (Returned, w')" "rows w \<noteq> []"
  shows "\<exists>target \<in> set (rows w). (\<forall>r \<in> set (rows w). rowTime r \<le> rowTime target)
           \<and> rows w' = filter (\<lambda>r. r_id r \<noteq> r_id target) (rows w)"
proof -
  let ?w0 = "logger Info ''Starting migration down...'' w"
  obtain res wg where g0: "getAppliedMigrations e ?w0 = (res, wg)"
    by (cases "getAppliedMigrations e ?w0")
  obtain applied where res: "res = Inr applied"
  proof (cases res)
    case (Inl err)
    then show ?thesis using down_read_failed[of e w err wg False fm] g0 assms by simp
  next
    case (Inr applied)
    then show ?thesis using that by simp
  qed
  have g: "getAppliedMigrations e ?w0 = (Inr applied, wg)" using g0 res by simp
  note G = getApplied_Inr[OF g]
  have ap: "applied = map row_to_migration (rows w)" using G(1) by simp
  have ne: "applied \<noteq> []" using ap assms(2) by simp
  then have "sortApplied applied \<noteq> []"
    by (metis length_sort sortApplied_def length_0_conv)
  then obtain lastApplied rest where sa: "sortApplied applied = lastApplied # rest"
    by (cases "sortApplied applied") auto
  note M = sortApplied_hd_max[OF sa]
  obtain target where t: "target \<in> set (rows w)" "lastApplied = row_to_migration target"
    using M(1) ap by auto
  have mx: "\<forall>r \<in> set (rows w). rowTime r \<le> rowTime target"
    using M(2) t(2) ap by (simp add: rowTime_def)
  obtain mig where f: "find (\<lambda>m. m_id m = m_id lastApplied) fm = Some mig"
  proof (cases "find (\<lambda>m. m_id m = m_id lastApplied) fm")
    case None
    then have "down e False (Inr fm) w =
        (Raised (''Migration file not found for applied migration: '' @ m_filename lastApplied), wg)"
      using g ne sa by (simp add: down_def)
    then show ?thesis using assms(1) by simp
  next
    case (Some mig)
    then show ?thesis using that by simp
  qed
  then have mid: "m_id mig = r_id target"
    using t(2) by (auto simp: find_Some_iff row_to_migration_def)
  have "rollback_migration e False mig wg = (Returned, w')"
    using assms(1) g ne sa f by (simp add: down_def)
  from rollback_Returned(2)[OF this]
  have "rows w' = filter (\<lambda>r. r_id r \<noteq> r_id target) (rows w)"
    using G(2) mid by simp
  then show ?thesis using t(1) mx by blast
qed

lemma status_ok:
  "getAppliedMigrations e w = (Inr applied, w1)
     \<Longrightarrow> status e (Inr fm) w = (Inr (map (status_entry (appliedMap applied)) fm), w1)"
  by (simp add: status_def)

text \<open>
  Claim C7, as amended. After a successful \<open>up\<close> that was not a dry run,
  \<open>status\<close> classifies every loaded definition as applied. A successful
  \<open>down\<close> after it removes the rows of one record, a record of maximal time, and
  \<open>status\<close> then classifies the definitions with that id as pending and all others
  still as applied. When a single definition was loaded and the table was empty before,
  the table is empty again and the definition is pending.
\<close>

theorem up_down_round_trip:
  assumes "up e False (Inr fileMigrations) w = (Returned, w1)"
    and "down e False (Inr fileMigrations) w1 = (Returned, w2)"
  shows "(\<forall>entries wa. status e (Inr fileMigrations) w1 = (Inr entries, wa)
            \<longrightarrow> map s_status entries = map (\<lambda>m. Applied) fileMigrations)
     \<and> (fileMigrations \<noteq> []
          \<longrightarrow> (\<exists>target \<in> set (rows w1).
                 (\<forall>r \<in> set (rows w1). rowTime r \<le> rowTime target)
               \<and> rows w2 = filter (\<lambda>r. r_id r \<noteq> r_id target) (rows w1)
               \<and> (\<forall>entries wb. status e (Inr fileMigrations) w2 = (Inr entries, wb)
                     \<longrightarrow> map s_status entries =
                         map (\<lambda>m. if m_id m = r_id target then Pending else Applied)
                           fileMigrations)))
     \<and> (rows w = [] \<and> (\<exists>m. fileMigrations = [m])
          \<longrightarrow> rows w2 = []
              \<and> (\<forall>entries wb. status e (Inr fileMigrations) w2 = (Inr entries, wb)
                     \<longrightarrow> map s_status entries = [Pending]))"
proof -
  note I = up_Returned_ids[OF assms(1)]
  have all_in: "\<forall>m \<in> set fileMigrations. m_id m \<in> r_id ` set (rows w1)"
    using I by auto
  have c1: "map s_status entries = map (\<lambda>m. Applied) fileMigrations"
    if s: "status e (Inr fileMigrations) w1 = (Inr entries, wa)" for entries wa
    using status_Inr_statuses[OF s] all_in by simp
  have c2: "\<exists>target \<in> set (rows w1).
                 (\<forall>r \<in> set (rows w1). rowTime r \<le> rowTime target)
               \<and> rows w2 = filter (\<lambda>r. r_id r \<noteq> r_id target) (rows w1)
               \<and> (\<forall>entries wb. status e (Inr fileMigrations) w2 = (Inr entries, wb)
                     \<longrightarrow> map s_status entries =
                         map (\<lambda>m. if m_id m = r_id target then Pending else Applied)
                           fileMigrations)"
    if ne: "fileMigrations \<noteq> []"
  proof -
    have "rows w1 \<noteq> []" using all_in ne by (cases fileMigrations) auto
    from down_Returned_rows[OF assms(2) this] obtain target where
      t: "target \<in> set (rows w1)" "\<forall>r \<in> set (rows w1). rowTime r \<le> rowTime target"
         "rows w2 = filter (\<lambda>r. r_id r \<noteq> r_id target) (rows w1)"
      by blast
    have ids2: "r_id ` set (rows w2) = r_id ` set (rows w1) - {r_id target}"
      unfolding t(3) by auto
    have "map s_status entries =
            map (\<lambda>m. if m_id m = r_id target then Pending else Applied) fileMigrations"
      if s: "status e (Inr fileMigrations) w2 = (Inr entries, wb)" for entries wb
      using status_Inr_statuses[OF s] all_in ids2 by auto
    then show ?thesis using t by blast
  qed
  have c3: "rows w2 = []
              \<and> (\<forall>entries wb. status e (Inr fileMigrations) w2 = (Inr entries, wb)
                     \<longrightarrow> map s_status entries = [Pending])"
    if h: "rows w = [] \<and> (\<exists>m. fileMigrations = [m])"
  proof -
    from h obtain m where m: "fileMigrations = [m]" and e0: "rows w = []" by blast
    have ids1: "r_id ` set (rows w1) = {m_id m}" using I m e0 by simp
    from c2 m obtain target where
      t: "target \<in> set (rows w1)"
         "rows w2 = filter (\<lambda>r. r_id r \<noteq> r_id target) (rows w1)"
      by auto
    have tid: "r_id target = m_id m" using t(1) ids1 by auto
    have "\<forall>r \<in> set (rows w1). r_id r = m_id m" using ids1 by auto
    then have r2: "rows w2 = []" unfolding t(2) tid by (simp add: filter_empty_conv)
    have "map s_status entries = [Pending]"
      if s: "status e (Inr fileMigrations) w2 = (Inr entries, wb)" for entries wb
      using status_Inr_statuses[OF s] r2 m by simp
    then show ?thesis using r2 by blast
  qed
  show ?thesis using c1 c2 c3 by blast
qed


theorem up_down_round_trip_witness:
  "rows (snd (down env_ok False (Inr [mig_users])
                (snd (up env_ok False (Inr [mig_users]) world_empty)))) = []
   \<and> (\<exists>entries wa. status env_ok (Inr [mig_users])
            (snd (up env_ok False (Inr [mig_users]) world_empty)) = (Inr entries, wa)
          \<and> map s_status entries = [Applied])
   \<and> (\<exists>entries wb. status env_ok (Inr [mig_users])
            (snd (down env_ok False (Inr [mig_users])
                    (snd (up env_ok False (Inr [mig_users]) world_empty)))) = (Inr entries, wb)
          \<and> map s_status entries = [Pending])"
proof -
  let ?F = "[mig_users]"
  let ?W1 = "snd (up env_ok False (Inr ?F) world_empty)"
  let ?W2 = "snd (down env_ok False (Inr ?F) ?W1)"
  have "fst (up env_ok False (Inr ?F) world_empty) = Returned"
    by (simp add: eval_defs show_nat.simps)
  then have ev1: "up env_ok False (Inr ?F) world_empty = (Returned, ?W1)"
    by (cases "up env_ok False (Inr ?F) world_empty") simp
  have "fst (down env_ok False (Inr ?F) ?W1) = Returned"
    by (simp add: eval_defs show_nat.simps)
  then have ev2: "down env_ok False (Inr ?F) ?W1 = (Returned, ?W2)"
    by (cases "down env_ok False (Inr ?F) ?W1") simp
  note T = up_down_round_trip[OF ev1 ev2]
  note s1 = status_ok[OF getApplied_env_ok, where w = ?W1 and fm = ?F]
  note s2 = status_ok[OF getApplied_env_ok, where w = ?W2 and fm = ?F]
  have c1: "\<forall>entries wa. status env_ok (Inr ?F) ?W1 = (Inr entries, wa)
            \<longrightarrow> map s_status entries = map (\<lambda>m. Applied) ?F"
    using T by (elim conjE)
  have c3: "rows world_empty = [] \<and> (\<exists>m. ?F = [m])
          \<longrightarrow> rows ?W2 = []
              \<and> (\<forall>entries wb. status env_ok (Inr ?F) ?W2 = (Inr entries, wb)
                     \<longrightarrow> map s_status entries = [Pending])"
    using T by (elim conjE)
  have h: "rows world_empty = [] \<and> (\<exists>m. ?F = [m])"
    by (simp add: world_empty_def)
  have r2: "rows ?W2 = []" using c3 h by blast
  have p2: "map s_status (map (status_entry (appliedMap (map row_to_migration (rows ?W2)))) ?F)
              = [Pending]"
    using c3 h s2 by blast
  have p1: "map s_status (map (status_entry (appliedMap (map row_to_migration (rows ?W1)))) ?F)
              = [Applied]"
    using c1[rule_format, OF s1] by simp
  have e1: "\<exists>entries wa. status env_ok (Inr ?F) ?W1 = (Inr entries, wa)
          \<and> map s_status entries = [Applied]"
    by (rule exI, rule exI, rule conjI, rule s1, rule p1)
  have e2: "\<exists>entries wb. status env_ok (Inr ?F) ?W2 = (Inr entries, wb)
          \<and> map s_status entries = [Pending]"
    by (rule exI, rule exI, rule conjI, rule s2, rule p2)
  from r2 e1 e2 show ?thesis by (intro conjI)
qed

text \<open>
  Claim C7 as stated fails for a definition that is not the last one applied: with two
  definitions, \<open>up\<close> applies both, \<open>down\<close> rolls back \<open>002\<close> only, and
  \<open>status\<close> still classifies \<open>001\<close> as applied.
\<close>

theorem round_trip_leaves_earlier_applied:
  "fst (up env_ok False (Inr [mig_users, mig_index]) world_empty) = Returned
   \<and> fst (down env_ok False (Inr [mig_users, mig_index])
            (snd (up env_ok False (Inr [mig_users, mig_index]) world_empty))) = Returned
   \<and> fst (status env_ok (Inr [mig_users, mig_index])
            (snd (down env_ok False (Inr [mig_users, mig_index])
                    (snd (up env_ok False (Inr [mig_users, mig_index]) world_empty))))) =
       Inr [\<lparr>s_id = ''001'', s_filename = ''001_create_users.ts'',
              s_status = Applied, s_appliedAt = Some 0\<rparr>,
            \<lparr>s_id = ''002'', s_filename = ''002_add_email_index.ts'',
              s_status = Pending, s_appliedAt = None\<rparr>]"
  by (simp add: eval_defs show_nat.simps)

section \<open>loadMigrations: a file name without leading digits\<close>

lemma extractMigrationId_Inl:
  "takeWhile is_digit f = [] \<Longrightarrow>
     extractMigrationId f =
       Inl (''Invalid migration filename format: '' @ f @ ''. Expected format: 001_migration_name.ts'')"
  by (simp add: extractMigrationId_def Let_def)

lemma extractMigrationId_cases:
  "extractMigrationId f =
       Inl (''Invalid migration filename format: '' @ f @ ''. Expected format: 001_migration_name.ts'')
   \<or> (extractMigrationId f = Inr (takeWhile is_digit f) \<and> takeWhile is_digit f \<noteq> [])"
  by (simp add: extractMigrationId_def Let_def)

lemma extname_endsWith:
  assumes "endsWith f (CHR ''.'' # ext)" "CHR ''.'' \<notin> set ext" "length f \<noteq> Suc (length ext)"
  shows "extname f = CHR ''.'' # ext"
proof -
  from assms(1) have "drop (length f - Suc (length ext)) f = CHR ''.'' # ext"
    by (simp add: endsWith_def)
  then have f: "f = take (length f - Suc (length ext)) f @ CHR ''.'' # ext"
    by (metis append_take_drop_id)
  define pre where "pre = take (length f - Suc (length ext)) f"
  have f': "f = pre @ CHR ''.'' # ext" using f pre_def by simp
  have "rev f = rev ext @ CHR ''.'' # rev pre" using f' by simp
  moreover have "takeWhile (\<lambda>c. c \<noteq> CHR ''.'') (rev ext @ CHR ''.'' # rev pre) =
      rev ext @ takeWhile (\<lambda>c. c \<noteq> CHR ''.'') (CHR ''.'' # rev pre)"
    by (rule takeWhile_append2) (use assms(2) in auto)
  ultimately have "takeWhile (\<lambda>c. c \<noteq> CHR ''.'') (rev f) = rev ext"
    by simp
  then have tail: "rev (takeWhile (\<lambda>c. c \<noteq> CHR ''.'') (rev f)) = ext" by simp
  have "CHR ''.'' \<in> set f" using f' by (metis in_set_conv_decomp)
  then show ?thesis using tail assms(3) by (simp add: extname_def Let_def)
qed

lemma extname_recognized:
  assumes "recognized f" "takeWhile is_digit f \<noteq> []"
  shows "extname f = ''.ts'' \<or> extname f = ''.cql''"
proof -
  obtain x xs where f: "f = x # xs" "is_digit x"
    using assms(2) by (cases f) (auto split: if_splits)
  have xd: "x \<noteq> CHR ''.''" using f(2) by (auto simp: is_digit_def)
  from assms(1) consider "endsWith f ''.ts''" | "endsWith f ''.cql''"
    by (auto simp: recognized_def)
  then show ?thesis
  proof cases
    case 1
    have "length f \<noteq> Suc (length ''ts'')"
    proof
      assume "length f = Suc (length ''ts'')"
      then have "f = ''.ts''" using 1 by (simp add: endsWith_def)
      then show False using f xd by simp
    qed
    then show ?thesis using extname_endsWith[of f "''ts''"] 1 by simp
  next
    case 2
    have "length f \<noteq> Suc (length ''cql'')"
    proof
      assume "length f = Suc (length ''cql'')"
      then have "f = ''.cql''" using 2 by (simp add: endsWith_def)
      then show False using f xd by simp
    qed
    then show ?thesis using extname_endsWith[of f "''cql''"] 2 by simp
  qed
qed

lemma loadTypeScriptMigration_result:
  "loadTypeScriptMigration fe ident f st = (r, st1) \<Longrightarrow>
     opened st1 = opened st @ [f] \<and> (\<forall>err. r = Inl err \<longrightarrow> sublist f err)"
  by (auto simp add: loadTypeScriptMigration_def Let_def sublist_Cons_right
      split: sum.splits if_splits)

lemma loadCQLMigration_result:
  "loadCQLMigration fe ident f st = (r, st1) \<Longrightarrow>
     opened st1 = opened st @ [f] \<and> (\<forall>err. r = Inl err \<longrightarrow> sublist f err)"
  by (auto simp add: loadCQLMigration_def Let_def sublist_Cons_right
      split: sum.splits if_splits)

lemma loadMigrationFile_result:
  assumes "loadMigrationFile fe ident f st = (r, st1)" "recognized f" "takeWhile is_digit f \<noteq> []"
  shows "opened st1 = opened st @ [f]" and "\<forall>err. r = Inl err \<longrightarrow> sublist f err"
  using assms extname_recognized[OF assms(2,3)]
    loadTypeScriptMigration_result[of fe ident f st r st1]
    loadCQLMigration_result[of fe ident f st r st1]
  by (auto simp add: loadMigrationFile_def Let_def split: if_splits)

lemma load_loop_bad_name:
  assumes "f \<in> set files" "takeWhile is_digit f = []" "\<forall>g \<in> set files. recognized g"
  shows "\<exists>err st' pre g post.
           load_loop fe files acc st = (Inl err, st')
         \<and> files = pre @ g # post
         \<and> sublist g err
         \<and> (opened st' = opened st @ pre \<or> opened st' = opened st @ pre @ [g])
         \<and> f \<notin> set pre
         \<and> (g = f \<longrightarrow> err = ''Invalid migration filename format: '' @ f
                              @ ''. Expected format: 001_migration_name.ts''
                        \<and> opened st' = opened st @ pre)"
  using assms
proof (induction files arbitrary: acc st)
  case Nil
  then show ?case by simp
next
  case (Cons h files)
  let ?bad = "\<lambda>n. ''Invalid migration filename format: '' @ n
                   @ ''. Expected format: 001_migration_name.ts''"
  show ?case
  proof (cases "takeWhile is_digit h = []")
    case True
    show ?thesis
      using extractMigrationId_Inl[OF True]
      by (intro exI[of _ "?bad h"] exI[of _ st] exI[of _ "[]"] exI[of _ h] exI[of _ files])
        (simp add: sublist_Cons_right)
  next
    case False
    then have hf: "h \<noteq> f" using Cons.prems(2) by auto
    then have fin: "f \<in> set files" using Cons.prems(1) by simp
    have ex: "extractMigrationId h = Inr (takeWhile is_digit h)"
      using False by (simp add: extractMigrationId_def Let_def)
    have rh: "recognized h" using Cons.prems(3) by simp
    obtain r st1 where lf: "loadMigrationFile fe (takeWhile is_digit h) h st = (r, st1)"
      by (cases "loadMigrationFile fe (takeWhile is_digit h) h st")
    note L = loadMigrationFile_result[OF lf rh False]
    show ?thesis
    proof (cases r)
      case (Inl err)
      let ?st' = "st1\<lparr>fs_log := fs_log st1 @
                   [(Error, ''Failed to load migration '' @ h @ '': '' @ render err)]\<rparr>"
      have "sublist h err" using L(2) Inl by simp
      moreover have "opened ?st' = opened st @ [] @ [h]" using L(1) by simp
      ultimately show ?thesis
        using hf ex lf Inl
        by (intro exI[of _ err] exI[of _ ?st'] exI[of _ "[]"] exI[of _ h] exI[of _ files]) simp
    next
      case (Inr migration)
      from Cons.IH[OF fin Cons.prems(2), of "acc @ [migration]" st1] Cons.prems(3)
      obtain err st' pre g post where
        ih: "load_loop fe files (acc @ [migration]) st1 = (Inl err, st')"
            "files = pre @ g # post" "sublist g err"
            "opened st' = opened st1 @ pre \<or> opened st' = opened st1 @ pre @ [g]"
            "f \<notin> set pre"
            "g = f \<longrightarrow> err = ?bad f \<and> opened st' = opened st1 @ pre"
        by auto
      show ?thesis
        using ex lf Inr ih L(1) hf
        by (intro exI[of _ err] exI[of _ st'] exI[of _ "h # pre"] exI[of _ g] exI[of _ post]) auto
    qed
  qed
qed

text \<open>
  Claim C9. When the directory lists a recognized file whose name does not begin with a
  digit, \<open>loadMigrations\<close> raises and returns no list. The sorted list of
  recognized files splits at the file that triggered the failure: its name is part of
  the message, the files opened are exactly those before it (and possibly itself), so
  no later file is loaded, and the failure comes no later than the named file. When
  that file itself triggers it, the message is the one about the file name format and
  the file is not opened.
\<close>

theorem loadMigrations_bad_filename:
  assumes "readdir fe = Some listing" "f \<in> set listing" "recognized f" "\<not> is_digit (hd f)"
  shows "\<exists>err st' pre g post.
           loadMigrations fe migrationsDir st = (Inl err, st')
         \<and> migration_files listing = pre @ g # post
         \<and> sublist g err
         \<and> (opened st' = opened st @ pre \<or> opened st' = opened st @ pre @ [g])
         \<and> f \<notin> set pre
         \<and> (g = f \<longrightarrow> err = ''Invalid migration filename format: '' @ f
                              @ ''. Expected format: 001_migration_name.ts''
                        \<and> opened st' = opened st @ pre)"
proof -
  have "f \<in> set (migration_files listing)"
    using assms(2,3) by (simp add: migration_files_def)
  moreover have "takeWhile is_digit f = []"
    using assms(4) by (simp add: takeWhile_eq_Nil_iff)
  moreover have "\<forall>g \<in> set (migration_files listing). recognized g"
    by (simp add: migration_files_def)
  ultimately show ?thesis
    using load_loop_bad_name[of f "migration_files listing" fe "[]" st] assms(1)
    by (simp add: loadMigrations_def)
qed


lemma fs_example_run:
  "loadMigrations fs_example ''./migrations'' fs_start =
     (Inl ''Invalid migration filename format: users.cql. Expected format: 001_migration_name.ts'',
      \<lparr>fs_log = [], opened = [''001_create_users.cql'']\<rparr>)"
  by code_simp

theorem loadMigrations_bad_filename_witness:
  "(\<exists>err st' pre g post.
       loadMigrations fs_example ''./migrations'' fs_start = (Inl err, st')
     \<and> migration_files [''users.cql'', ''notes.txt'', ''001_create_users.cql''] = pre @ g # post
     \<and> sublist g err
     \<and> (opened st' = opened fs_start @ pre \<or> opened st' = opened fs_start @ pre @ [g])
     \<and> ''users.cql'' \<notin> set pre)
   \<and> fst (loadMigrations fs_example ''./migrations'' fs_start) =
       Inl ''Invalid migration filename format: users.cql. Expected format: 001_migration_name.ts''
   \<and> opened (snd (loadMigrations fs_example ''./migrations'' fs_start)) = [''001_create_users.cql'']"
proof -
  have r: "readdir fs_example = Some [''users.cql'', ''notes.txt'', ''001_create_users.cql'']"
    by (simp add: fs_example_def)
  have m: "''users.cql'' \<in> set [''users.cql'', ''notes.txt'', ''001_create_users.cql'']"
    by simp
  have rc: "recognized ''users.cql''"
    by code_simp
  have nd: "\<not> is_digit (hd ''users.cql'')"
    by code_simp
  from loadMigrations_bad_filename[OF r m rc nd, of "''./migrations''" fs_start]
  obtain err st' pre g post where
    d: "loadMigrations fs_example ''./migrations'' fs_start = (Inl err, st')"
       "migration_files [''users.cql'', ''notes.txt'', ''001_create_users.cql''] = pre @ g # post"
       "sublist g err"
       "opened st' = opened fs_start @ pre \<or> opened st' = opened fs_start @ pre @ [g]"
       "''users.cql'' \<notin> set pre"
    by blast
  have e: "\<exists>err st' pre g post.
       loadMigrations fs_example ''./migrations'' fs_start = (Inl err, st')
     \<and> migration_files [''users.cql'', ''notes.txt'', ''001_create_users.cql''] = pre @ g # post
     \<and> sublist g err
     \<and> (opened st' = opened fs_start @ pre \<or> opened st' = opened fs_start @ pre @ [g])
     \<and> ''users.cql'' \<notin> set pre"
    using d by blast
  have f: "fst (loadMigrations fs_example ''./migrations'' fs_start) =
       Inl ''Invalid migration filename format: users.cql. Expected format: 001_migration_name.ts''"
    and o: "opened (snd (loadMigrations fs_example ''./migrations'' fs_start)) = [''001_create_users.cql'']"
    unfolding fs_example_run by simp_all
  from e f o show ?thesis by (intro conjI)
qed

end
